theory Spec2Isabelle
  imports Main "HOL-Library.AList"
begin

section \<open>Cache keys and cache file names\<close>

text \<open>
  The five data kinds of the acquisition layer: one per public fetch function of
  \<^verbatim>\<open>src/ds/data.py\<close>.
\<close>

datatype data_kind =
  PriceSeries | AnnualStatements | QuarterlyStatements | CompanyInfo | HoldersAndRecommendations

text \<open>
  The \<^verbatim>\<open>types\<close> dictionaries of the three bundle functions, in insertion order:
  the sub-kind name and the provider attribute that \<^verbatim>\<open>getattr\<close> looks up.
\<close>

definition financials_types :: "(string \<times> string) list" where
  "financials_types =
     [(''income_stmt'', ''financials''),
      (''balance_sheet'', ''balance_sheet''),
      (''cashflow'', ''cashflow'')]"

definition quarterly_types :: "(string \<times> string) list" where
  "quarterly_types =
     [(''income_stmt'', ''quarterly_financials''),
      (''balance_sheet'', ''quarterly_balance_sheet''),
      (''cashflow'', ''quarterly_cashflow'')]"

definition holders_types :: "(string \<times> string) list" where
  "holders_types =
     [(''institutional_holders'', ''institutional_holders''),
      (''major_holders'', ''major_holders''),
      (''recommendations'', ''recommendations'')]"

text \<open>
  The name of the cache file below \<^verbatim>\<open>RAW_DATA_DIR\<close>, as each function formats it
  (\<^verbatim>\<open>f"{ticker}.csv"\<close>, \<^verbatim>\<open>f"{ticker}_{name}.csv"\<close>, \<^verbatim>\<open>f"{ticker}_info.json"\<close>,
  \<^verbatim>\<open>f"{ticker}_quarterly_{name}.csv"\<close>). The directory \<^verbatim>\<open>RAW_DATA_DIR\<close> comes from
  a module that is not part of the sources; it is the same for every file, so a
  cache file is identified by its name below that directory. The ticker is an
  arbitrary string: nothing in the code validates it.
\<close>

definition stock_cache_file :: "string \<Rightarrow> string" where
  "stock_cache_file ticker = ticker @ ''.csv''"

definition financials_cache_file :: "string \<Rightarrow> string \<Rightarrow> string" where
  "financials_cache_file ticker name = ticker @ ''_'' @ name @ ''.csv''"

definition info_cache_file :: "string \<Rightarrow> string" where
  "info_cache_file ticker = ticker @ ''_info.json''"

definition quarterly_cache_file :: "string \<Rightarrow> string \<Rightarrow> string" where
  "quarterly_cache_file ticker name = ticker @ ''_quarterly_'' @ name @ ''.csv''"

definition holders_cache_file :: "string \<Rightarrow> string \<Rightarrow> string" where
  "holders_cache_file ticker name = ticker @ ''_'' @ name @ ''.csv''"

text \<open>
  A cache key is an identifier, a data kind and a sub-kind. The price series and the
  company metadata have a single, implicit sub-kind (\<open>None\<close>); a bundle has the
  names of its \<^verbatim>\<open>types\<close> dictionary.
\<close>

type_synonym cache_key = "string \<times> data_kind \<times> string option"

fun sub_kinds :: "data_kind \<Rightarrow> string option list" where
  "sub_kinds PriceSeries = [None]"
| "sub_kinds AnnualStatements = map (Some \<circ> fst) financials_types"
| "sub_kinds QuarterlyStatements = map (Some \<circ> fst) quarterly_types"
| "sub_kinds CompanyInfo = [None]"
| "sub_kinds HoldersAndRecommendations = map (Some \<circ> fst) holders_types"

definition valid_key :: "cache_key \<Rightarrow> bool" where
  "valid_key k = (case k of (ticker, kind, sub) \<Rightarrow> sub \<in> set (sub_kinds kind))"

fun cache_file_of :: "cache_key \<Rightarrow> string" where
  "cache_file_of (ticker, PriceSeries, sub) = stock_cache_file ticker"
| "cache_file_of (ticker, AnnualStatements, sub) =
     financials_cache_file ticker (case sub of Some name \<Rightarrow> name | None \<Rightarrow> [])"
| "cache_file_of (ticker, QuarterlyStatements, sub) =
     quarterly_cache_file ticker (case sub of Some name \<Rightarrow> name | None \<Rightarrow> [])"
| "cache_file_of (ticker, CompanyInfo, sub) = info_cache_file ticker"
| "cache_file_of (ticker, HoldersAndRecommendations, sub) =
     holders_cache_file ticker (case sub of Some name \<Rightarrow> name | None \<Rightarrow> [])"

section \<open>Tables\<close>

text \<open>
  What the code reads off a \<^verbatim>\<open>pandas.DataFrame\<close>: its column index (flat, or a
  \<^verbatim>\<open>MultiIndex\<close> given by its levels, each level holding one label per column), its
  row index and its cells. A label is text or, once parsed, a timestamp. The cell
  type is left open.
\<close>

datatype label = Text string | Timestamp int

datatype col_index = Index "label list" | MultiIndex "label list list"

record 'v frame =
  columns :: col_index
  index :: "label list"
  cells :: "'v list list"

fun ncols :: "col_index \<Rightarrow> nat" where
  "ncols (Index ls) = length ls"
| "ncols (MultiIndex []) = 0"
| "ncols (MultiIndex (l # levels)) = length l"

text \<open>\<^verbatim>\<open>df.empty\<close>: some axis has length zero.\<close>

definition df_empty :: "'v frame \<Rightarrow> bool" where
  "df_empty df = (ncols (columns df) = 0 \<or> index df = [])"

text \<open>\<^verbatim>\<open>pd.DataFrame()\<close>: the table with no columns and no rows.\<close>

definition DataFrame :: "'v frame" where
  "DataFrame = \<lparr>columns = Index [], index = [], cells = []\<rparr>"

datatype py_error =
  OSError | FileNotFoundError | AttributeError | IndexError | ValueError | KeyError
  | ProviderError | ParserError | JSONDecodeError

text \<open>
  \<^verbatim>\<open>columns.droplevel(n)\<close> on a \<^verbatim>\<open>MultiIndex\<close>: the level must exist and one level
  must be left; a single remaining level is a flat index.
\<close>

definition droplevel :: "label list list \<Rightarrow> nat \<Rightarrow> py_error + col_index" where
  "droplevel levels n =
     (if length levels \<le> n then Inl IndexError
      else case take n levels @ drop (Suc n) levels of
             [] \<Rightarrow> Inl ValueError
           | [l] \<Rightarrow> Inr (Index l)
           | l # l' # ls \<Rightarrow> Inr (MultiIndex (l # l' # ls)))"

text \<open>Assigning \<^verbatim>\<open>df.columns = c\<close>: pandas refuses a new index of another length.\<close>

definition set_columns :: "'v frame \<Rightarrow> col_index \<Rightarrow> py_error + 'v frame" where
  "set_columns df c =
     (if ncols c = ncols (columns df) then Inr (df\<lparr>columns := c\<rparr>) else Inl ValueError)"

section \<open>The world outside the functions\<close>

text \<open>
  The state the functions act on: the files of the cache directory (name to text),
  the faults of the directory, and the requests sent to the remote provider so far,
  oldest first. A fault says how the write of a text to a file fails: the file cannot
  be opened, and stays as it is; or it is opened, which creates or truncates it, and
  the write breaks off (the serialiser raises part-way, the disk refuses), which
  leaves the file with whatever was written until then.
\<close>

datatype fault = OpenFails py_error | WriteFails py_error string

datatype request =
  Download string string "string option" | Attribute string string | Info string

record world =
  files :: "string \<rightharpoonup> string"
  faults :: "string \<Rightarrow> string \<Rightarrow> fault option"
  remote_log :: "request list"

text \<open>
  A call returns its value, or the exception it raised, together with the world it
  leaves behind: what was written before an exception stays written. What the
  functions print is left out.
\<close>

type_synonym 'a outcome = "(py_error + 'a) \<times> world"

definition fs_exists :: "world \<Rightarrow> string \<Rightarrow> bool" where
  "fs_exists w p = (files w p \<noteq> None)"

definition fs_read :: "world \<Rightarrow> string \<Rightarrow> py_error + string" where
  "fs_read w p = (case files w p of None \<Rightarrow> Inl FileNotFoundError | Some text \<Rightarrow> Inr text)"

text \<open>
  Writing a file (\<^verbatim>\<open>df.to_csv(cache_file)\<close>, or \<^verbatim>\<open>open(cache_file, "w")\<close> followed by
  \<^verbatim>\<open>json.dump\<close>), where \<open>text\<close> is what the serialiser writes when nothing fails: without
  a fault the file holds the text; a failed open raises and changes nothing; a write
  that breaks off raises and leaves the partial text in the file.
\<close>

definition fs_write :: "string \<Rightarrow> string \<Rightarrow> world \<Rightarrow> unit outcome" where
  "fs_write p text w =
     (case faults w p text of
        None \<Rightarrow> (Inr (), w\<lparr>files := (files w)(p \<mapsto> text)\<rparr>)
      | Some (OpenFails e) \<Rightarrow> (Inl e, w)
      | Some (WriteFails e left) \<Rightarrow> (Inl e, w\<lparr>files := (files w)(p \<mapsto> left)\<rparr>))"

definition remote_call :: "request \<Rightarrow> world \<Rightarrow> world" where
  "remote_call rq w = w\<lparr>remote_log := remote_log w @ [rq]\<rparr>"

text \<open>
  The libraries the module calls, as parameters. The provider (\<^verbatim>\<open>yfinance\<close>) answers
  a request given the requests made before it, so its answers may change from one
  call to the next; an attribute lookup may yield \<^verbatim>\<open>None\<close>. Building the
  \<^verbatim>\<open>yf.Ticker\<close> object sends nothing: the provider is asked when an attribute is read. \<^verbatim>\<open>to_csv\<close> takes the
  \<^verbatim>\<open>index\<close> flag, \<^verbatim>\<open>read_csv\<close> takes \<^verbatim>\<open>index_col\<close> and \<^verbatim>\<open>parse_dates\<close>.
\<close>

record ('v, 'j, 's) env =
  yf_download :: "request list \<Rightarrow> string \<Rightarrow> string \<Rightarrow> string option \<Rightarrow> py_error + 'v frame"
  yf_attr :: "request list \<Rightarrow> string \<Rightarrow> string \<Rightarrow> py_error + 'v frame option"
  yf_info :: "request list \<Rightarrow> string \<Rightarrow> py_error + (string \<times> 'j) list"
  to_csv :: "bool \<Rightarrow> 'v frame \<Rightarrow> string"
  read_csv :: "nat option \<Rightarrow> bool \<Rightarrow> string \<Rightarrow> py_error + 'v frame"
  to_datetime :: "col_index \<Rightarrow> py_error + col_index"
  getitem :: "'v frame \<Rightarrow> string \<Rightarrow> py_error + 's"
  json_dump :: "(string \<times> 'j) list \<Rightarrow> string"
  json_load :: "string \<Rightarrow> py_error + (string \<times> 'j) list"

section \<open>The fetch functions\<close>

subsection \<open>\<^verbatim>\<open>get_stock_data\<close>\<close>

text \<open>Lines 35 to 37: a two-level column index loses its second level.\<close>

definition flatten_columns :: "'v frame \<Rightarrow> py_error + 'v frame" where
  "flatten_columns df =
     (case columns df of
        Index ls \<Rightarrow> Inr df
      | MultiIndex levels \<Rightarrow>
          (case droplevel levels 1 of
             Inl e \<Rightarrow> Inl e
           | Inr c \<Rightarrow> Inr (df\<lparr>columns := c\<rparr>)))"

definition get_stock_data ::
  "('v, 'j, 's) env \<Rightarrow> string \<Rightarrow> string \<Rightarrow> string option \<Rightarrow> bool \<Rightarrow> world \<Rightarrow> 'v frame outcome"
where
  "get_stock_data env ticker start end_date use_cache w =
     (let cache_file = stock_cache_file ticker in
      if use_cache \<and> fs_exists w cache_file then
        (case fs_read w cache_file of
           Inl e \<Rightarrow> (Inl e, w)
         | Inr text \<Rightarrow> (read_csv env (Some 0) True text, w))
      else
        (let w1 = remote_call (Download ticker start end_date) w in
         case yf_download env (remote_log w) ticker start end_date of
           Inl e \<Rightarrow> (Inl e, w1)
         | Inr df0 \<Rightarrow>
             (case flatten_columns df0 of
                Inl e \<Rightarrow> (Inl e, w1)
              | Inr df \<Rightarrow>
                  if \<not> df_empty df then
                    (case fs_write cache_file (to_csv env True df) w1 of
                       (Inl e, w2) \<Rightarrow> (Inl e, w2)
                     | (Inr u, w2) \<Rightarrow> (Inr df, w2))
                  else (Inr df, w1))))"

subsection \<open>Loops over a \<^verbatim>\<open>types\<close> dictionary\<close>

text \<open>
  \<^verbatim>\<open>for name, yf_attr in types.items(): body\<close>, where the body updates the result
  dictionary: the items in order, stopping at the first exception.
\<close>

fun for_items ::
  "(string \<times> string) list \<Rightarrow> (string \<Rightarrow> string \<Rightarrow> 'd \<Rightarrow> world \<Rightarrow> 'd outcome) \<Rightarrow> 'd \<Rightarrow> world \<Rightarrow> 'd outcome"
where
  "for_items [] body d w = (Inr d, w)"
| "for_items ((name, attr) # items) body d w =
     (case body name attr d w of
        (Inl e, w') \<Rightarrow> (Inl e, w')
      | (Inr d', w') \<Rightarrow> for_items items body d' w')"

subsection \<open>\<^verbatim>\<open>get_company_financials\<close> and \<^verbatim>\<open>get_quarterly_financials\<close>\<close>

text \<open>
  Lines 75 to 78 and 148 to 151: the column headers are parsed as dates; whatever the
  attempt raises is dropped and the table stays as it was read.
\<close>

definition reparse_columns :: "('v, 'j, 's) env \<Rightarrow> 'v frame \<Rightarrow> 'v frame" where
  "reparse_columns env df =
     (case to_datetime env (columns df) of
        Inl e \<Rightarrow> df
      | Inr c \<Rightarrow> (case set_columns df c of Inl e \<Rightarrow> df | Inr df' \<Rightarrow> df'))"

text \<open>
  The loop body. The statement attributes are read with \<^verbatim>\<open>df.empty\<close> unguarded, so
  a \<^verbatim>\<open>None\<close> from the provider raises \<^verbatim>\<open>AttributeError\<close>.
\<close>

definition financials_body ::
  "('v, 'j, 's) env \<Rightarrow> string \<Rightarrow> bool \<Rightarrow> string \<Rightarrow> string \<Rightarrow>
   (string \<times> 'v frame) list \<Rightarrow> world \<Rightarrow> (string \<times> 'v frame) list outcome"
where
  "financials_body env ticker use_cache name attr financials w =
     (let cache_file = financials_cache_file ticker name in
      if use_cache \<and> fs_exists w cache_file then
        (case fs_read w cache_file of
           Inl e \<Rightarrow> (Inl e, w)
         | Inr text \<Rightarrow>
             (case read_csv env (Some 0) False text of
                Inl e \<Rightarrow> (Inl e, w)
              | Inr df \<Rightarrow> (Inr (AList.update name (reparse_columns env df) financials), w)))
      else
        (let w1 = remote_call (Attribute ticker attr) w in
         case yf_attr env (remote_log w) ticker attr of
           Inl e \<Rightarrow> (Inl e, w1)
         | Inr None \<Rightarrow> (Inl AttributeError, w1)
         | Inr (Some df) \<Rightarrow>
             if \<not> df_empty df then
               (case fs_write cache_file (to_csv env True df) w1 of
                  (Inl e, w2) \<Rightarrow> (Inl e, w2)
                | (Inr u, w2) \<Rightarrow> (Inr (AList.update name df financials), w2))
             else (Inr (AList.update name df financials), w1)))"

definition get_company_financials ::
  "('v, 'j, 's) env \<Rightarrow> string \<Rightarrow> bool \<Rightarrow> world \<Rightarrow> (string \<times> 'v frame) list outcome"
where
  "get_company_financials env ticker use_cache w =
     for_items financials_types (financials_body env ticker use_cache) [] w"

definition quarterly_body ::
  "('v, 'j, 's) env \<Rightarrow> string \<Rightarrow> bool \<Rightarrow> string \<Rightarrow> string \<Rightarrow>
   (string \<times> 'v frame) list \<Rightarrow> world \<Rightarrow> (string \<times> 'v frame) list outcome"
where
  "quarterly_body env ticker use_cache name attr financials w =
     (let cache_file = quarterly_cache_file ticker name in
      if use_cache \<and> fs_exists w cache_file then
        (case fs_read w cache_file of
           Inl e \<Rightarrow> (Inl e, w)
         | Inr text \<Rightarrow>
             (case read_csv env (Some 0) False text of
                Inl e \<Rightarrow> (Inl e, w)
              | Inr df \<Rightarrow> (Inr (AList.update name (reparse_columns env df) financials), w)))
      else
        (let w1 = remote_call (Attribute ticker attr) w in
         case yf_attr env (remote_log w) ticker attr of
           Inl e \<Rightarrow> (Inl e, w1)
         | Inr None \<Rightarrow> (Inl AttributeError, w1)
         | Inr (Some df) \<Rightarrow>
             if \<not> df_empty df then
               (case fs_write cache_file (to_csv env True df) w1 of
                  (Inl e, w2) \<Rightarrow> (Inl e, w2)
                | (Inr u, w2) \<Rightarrow> (Inr (AList.update name df financials), w2))
             else (Inr (AList.update name df financials), w1)))"

definition get_quarterly_financials ::
  "('v, 'j, 's) env \<Rightarrow> string \<Rightarrow> bool \<Rightarrow> world \<Rightarrow> (string \<times> 'v frame) list outcome"
where
  "get_quarterly_financials env ticker use_cache w =
     for_items quarterly_types (quarterly_body env ticker use_cache) [] w"

subsection \<open>\<^verbatim>\<open>get_company_info\<close>\<close>

text \<open>
  The metadata is a dictionary; \<^verbatim>\<open>if info:\<close> holds when it has an entry. The provider
  object is only built after the cache was tried.
\<close>

definition get_company_info ::
  "('v, 'j, 's) env \<Rightarrow> string \<Rightarrow> bool \<Rightarrow> world \<Rightarrow> (string \<times> 'j) list outcome"
where
  "get_company_info env ticker use_cache w =
     (let cache_file = info_cache_file ticker in
      if use_cache \<and> fs_exists w cache_file then
        (case fs_read w cache_file of
           Inl e \<Rightarrow> (Inl e, w)
         | Inr text \<Rightarrow> (json_load env text, w))
      else
        (let w1 = remote_call (Info ticker) w in
         case yf_info env (remote_log w) ticker of
           Inl e \<Rightarrow> (Inl e, w1)
         | Inr info \<Rightarrow>
             if info \<noteq> [] then
               (case fs_write cache_file (json_dump env info) w1 of
                  (Inl e, w2) \<Rightarrow> (Inl e, w2)
                | (Inr u, w2) \<Rightarrow> (Inr info, w2))
             else (Inr info, w1)))"

subsection \<open>\<^verbatim>\<open>get_holders_and_recommendations\<close>\<close>

definition holders_body ::
  "('v, 'j, 's) env \<Rightarrow> string \<Rightarrow> bool \<Rightarrow> string \<Rightarrow> string \<Rightarrow>
   (string \<times> 'v frame) list \<Rightarrow> world \<Rightarrow> (string \<times> 'v frame) list outcome"
where
  "holders_body env ticker use_cache name attr data w =
     (let cache_file = holders_cache_file ticker name in
      if use_cache \<and> fs_exists w cache_file then
        (case fs_read w cache_file of
           Inl e \<Rightarrow> (Inl e, w)
         | Inr text \<Rightarrow>
             (case read_csv env None False text of
                Inl e \<Rightarrow> (Inl e, w)
              | Inr df \<Rightarrow> (Inr (AList.update name df data), w)))
      else
        (let w1 = remote_call (Attribute ticker attr) w in
         case yf_attr env (remote_log w) ticker attr of
           Inl e \<Rightarrow> (Inl e, w1)
         | Inr None \<Rightarrow> (Inr (AList.update name DataFrame data), w1)
         | Inr (Some df) \<Rightarrow>
             if \<not> df_empty df then
               (case fs_write cache_file (to_csv env False df) w1 of
                  (Inl e, w2) \<Rightarrow> (Inl e, w2)
                | (Inr u, w2) \<Rightarrow> (Inr (AList.update name df data), w2))
             else (Inr (AList.update name DataFrame data), w1)))"

definition get_holders_and_recommendations ::
  "('v, 'j, 's) env \<Rightarrow> string \<Rightarrow> bool \<Rightarrow> world \<Rightarrow> (string \<times> 'v frame) list outcome"
where
  "get_holders_and_recommendations env ticker use_cache w =
     for_items holders_types (holders_body env ticker use_cache) [] w"

subsection \<open>\<^verbatim>\<open>get_treasury_yield\<close>\<close>

definition get_treasury_yield ::
  "('v, 'j, 's) env \<Rightarrow> string \<Rightarrow> string \<Rightarrow> string option \<Rightarrow> bool \<Rightarrow> world \<Rightarrow> 's outcome"
where
  "get_treasury_yield env ticker start end_date use_cache w =
     (case get_stock_data env ticker start end_date use_cache w of
        (Inl e, w') \<Rightarrow> (Inl e, w')
      | (Inr df, w') \<Rightarrow> (getitem env df ''Close'', w'))"

section \<open>The uniform fetch operation\<close>

text \<open>
  The five public functions seen as one operation indexed by the data kind. A fetched
  value is a single payload (a table or the metadata dictionary) or a bundle of named
  tables. The date bounds only matter to the price series.
\<close>

datatype ('v, 'j) payload = Table "'v frame" | Document "(string \<times> 'j) list"

datatype ('v, 'j) fetched = Single "('v, 'j) payload" | Bundle "(string \<times> ('v, 'j) payload) list"

definition returning :: "('a \<Rightarrow> 'b) \<Rightarrow> 'a outcome \<Rightarrow> 'b outcome" where
  "returning f out = (case out of (Inl e, w) \<Rightarrow> (Inl e, w) | (Inr v, w) \<Rightarrow> (Inr (f v), w))"

definition tables :: "(string \<times> 'v frame) list \<Rightarrow> ('v, 'j) fetched" where
  "tables b = Bundle (map (\<lambda>(name, df). (name, Table df)) b)"

definition fetch ::
  "('v, 'j, 's) env \<Rightarrow> data_kind \<Rightarrow> string \<Rightarrow> string \<Rightarrow> string option \<Rightarrow> bool \<Rightarrow> world \<Rightarrow>
   ('v, 'j) fetched outcome"
where
  "fetch env kind ticker start end_date use_cache w =
     (case kind of
        PriceSeries \<Rightarrow>
          returning (\<lambda>df. Single (Table df)) (get_stock_data env ticker start end_date use_cache w)
      | AnnualStatements \<Rightarrow> returning tables (get_company_financials env ticker use_cache w)
      | QuarterlyStatements \<Rightarrow> returning tables (get_quarterly_financials env ticker use_cache w)
      | CompanyInfo \<Rightarrow>
          returning (\<lambda>info. Single (Document info)) (get_company_info env ticker use_cache w)
      | HoldersAndRecommendations \<Rightarrow>
          returning tables (get_holders_and_recommendations env ticker use_cache w))"

text \<open>The part of a fetched value that belongs to a sub-kind.\<close>

fun component :: "('v, 'j) fetched \<Rightarrow> string option \<Rightarrow> ('v, 'j) payload option" where
  "component (Single x) None = Some x"
| "component (Single x) (Some name) = None"
| "component (Bundle b) None = None"
| "component (Bundle b) (Some name) = map_of b name"

text \<open>An empty record: a table with an empty axis, a dictionary without entries.\<close>

fun is_empty :: "('v, 'j) payload \<Rightarrow> bool" where
  "is_empty (Table df) = df_empty df"
| "is_empty (Document info) = (info = [])"

fun types_of :: "data_kind \<Rightarrow> (string \<times> string) list" where
  "types_of PriceSeries = []"
| "types_of AnnualStatements = financials_types"
| "types_of QuarterlyStatements = quarterly_types"
| "types_of CompanyInfo = []"
| "types_of HoldersAndRecommendations = holders_types"

definition attr_of :: "data_kind \<Rightarrow> string option \<Rightarrow> string" where
  "attr_of kind sub =
     (case sub of
        None \<Rightarrow> []
      | Some name \<Rightarrow> (case map_of (types_of kind) name of None \<Rightarrow> [] | Some attr \<Rightarrow> attr))"

text \<open>The request a fetch sends to the provider for one key.\<close>

fun key_request :: "data_kind \<Rightarrow> string \<Rightarrow> string \<Rightarrow> string option \<Rightarrow> string option \<Rightarrow> request" where
  "key_request PriceSeries ticker start end_date sub = Download ticker start end_date"
| "key_request CompanyInfo ticker start end_date sub = Info ticker"
| "key_request kind ticker start end_date sub = Attribute ticker (attr_of kind sub)"

subsection \<open>The serialization adapters\<close>

text \<open>
  What each function writes and what it reads back on a cache hit: tables of price
  series and statements go through \<^verbatim>\<open>to_csv\<close> with the index and come back through
  \<^verbatim>\<open>read_csv(index_col=0)\<close> (with \<^verbatim>\<open>parse_dates=True\<close> for prices, with the header
  reparse for statements); holder tables are written with \<^verbatim>\<open>index=False\<close> and read
  plainly; the metadata goes through \<^verbatim>\<open>json.dump\<close> and \<^verbatim>\<open>json.load\<close>.
  Nothing is assumed about these library functions: where a statement depends on
  what the CSV reader returns for a text the writer produced, it says so as a
  hypothesis on the table at hand.
\<close>

fun encode :: "('v, 'j, 's) env \<Rightarrow> data_kind \<Rightarrow> ('v, 'j) payload \<Rightarrow> string" where
  "encode env kind (Table df) = to_csv env (kind \<noteq> HoldersAndRecommendations) df"
| "encode env kind (Document info) = json_dump env info"

definition load_statement :: "('v, 'j, 's) env \<Rightarrow> string \<Rightarrow> py_error + 'v frame" where
  "load_statement env text =
     (case read_csv env (Some 0) False text of
        Inl e \<Rightarrow> Inl e
      | Inr df \<Rightarrow> Inr (reparse_columns env df))"

definition as_table :: "py_error + 'v frame \<Rightarrow> py_error + ('v, 'j) payload" where
  "as_table r = (case r of Inl e \<Rightarrow> Inl e | Inr df \<Rightarrow> Inr (Table df))"

definition as_document :: "py_error + (string \<times> 'j) list \<Rightarrow> py_error + ('v, 'j) payload" where
  "as_document r = (case r of Inl e \<Rightarrow> Inl e | Inr info \<Rightarrow> Inr (Document info))"

fun decode :: "('v, 'j, 's) env \<Rightarrow> data_kind \<Rightarrow> string \<Rightarrow> py_error + ('v, 'j) payload" where
  "decode env PriceSeries text = as_table (read_csv env (Some 0) True text)"
| "decode env AnnualStatements text = as_table (load_statement env text)"
| "decode env QuarterlyStatements text = as_table (load_statement env text)"
| "decode env CompanyInfo text = as_document (json_load env text)"
| "decode env HoldersAndRecommendations text = as_table (read_csv env None False text)"

text \<open>
  Decoding a list of named texts in order; the first decoding error is the result.
\<close>

fun decode_items ::
  "(string \<Rightarrow> py_error + 'a) \<Rightarrow> (string \<times> string) list \<Rightarrow> py_error + (string \<times> 'a) list"
where
  "decode_items load [] = Inr []"
| "decode_items load ((name, text) # rest) =
     (case load text of
        Inl e \<Rightarrow> Inl e
      | Inr y \<Rightarrow>
          (case decode_items load rest of
             Inl e \<Rightarrow> Inl e
           | Inr ys \<Rightarrow> Inr ((name, y) # ys)))"

text \<open>
  A value after a trip through the adapter: each payload encoded and decoded again,
  the entries of a bundle one by one.
\<close>

fun roundtrip :: "('v, 'j, 's) env \<Rightarrow> data_kind \<Rightarrow> ('v, 'j) fetched \<Rightarrow> py_error + ('v, 'j) fetched" where
  "roundtrip env kind (Single x) =
     (case decode env kind (encode env kind x) of Inl e \<Rightarrow> Inl e | Inr y \<Rightarrow> Inr (Single y))"
| "roundtrip env kind (Bundle b) =
     (case decode_items (decode env kind) (map (\<lambda>(name, x). (name, encode env kind x)) b) of
        Inl e \<Rightarrow> Inl e
      | Inr ys \<Rightarrow> Inr (Bundle ys))"

fun nonempty :: "('v, 'j) fetched \<Rightarrow> bool" where
  "nonempty (Single x) = (\<not> is_empty x)"
| "nonempty (Bundle b) = list_all (\<lambda>(name, x). \<not> is_empty x) b"

subsection \<open>The provider's answer for one key\<close>

text \<open>
  What a function holds after asking the provider, given the requests made so far: the
  downloaded price table with its columns flattened; a statement table, where \<^verbatim>\<open>None\<close>
  raises; a holder table, where \<^verbatim>\<open>None\<close> and an empty table both become
  \<^verbatim>\<open>pd.DataFrame()\<close>; the metadata dictionary.
\<close>

definition ask_download ::
  "('v, 'j, 's) env \<Rightarrow> string \<Rightarrow> string \<Rightarrow> string option \<Rightarrow> request list \<Rightarrow> py_error + 'v frame"
where
  "ask_download env ticker start end_date lg =
     (case yf_download env lg ticker start end_date of
        Inl e \<Rightarrow> Inl e
      | Inr df0 \<Rightarrow> flatten_columns df0)"

definition ask_statement ::
  "('v, 'j, 's) env \<Rightarrow> string \<Rightarrow> string \<Rightarrow> request list \<Rightarrow> py_error + 'v frame"
where
  "ask_statement env ticker attr lg =
     (case yf_attr env lg ticker attr of
        Inl e \<Rightarrow> Inl e
      | Inr None \<Rightarrow> Inl AttributeError
      | Inr (Some df) \<Rightarrow> Inr df)"

definition ret_holder :: "'v frame option \<Rightarrow> 'v frame" where
  "ret_holder ans =
     (case ans of None \<Rightarrow> DataFrame | Some df \<Rightarrow> if df_empty df then DataFrame else df)"

definition ask_holder ::
  "('v, 'j, 's) env \<Rightarrow> string \<Rightarrow> string \<Rightarrow> request list \<Rightarrow> py_error + 'v frame"
where
  "ask_holder env ticker attr lg =
     (case yf_attr env lg ticker attr of Inl e \<Rightarrow> Inl e | Inr ans \<Rightarrow> Inr (ret_holder ans))"

fun ask ::
  "('v, 'j, 's) env \<Rightarrow> data_kind \<Rightarrow> string \<Rightarrow> string \<Rightarrow> string option \<Rightarrow> string option \<Rightarrow>
   request list \<Rightarrow> py_error + ('v, 'j) payload"
where
  "ask env PriceSeries ticker start end_date sub lg =
     as_table (ask_download env ticker start end_date lg)"
| "ask env AnnualStatements ticker start end_date sub lg =
     as_table (ask_statement env ticker (attr_of AnnualStatements sub) lg)"
| "ask env QuarterlyStatements ticker start end_date sub lg =
     as_table (ask_statement env ticker (attr_of QuarterlyStatements sub) lg)"
| "ask env CompanyInfo ticker start end_date sub lg = as_document (yf_info env lg ticker)"
| "ask env HoldersAndRecommendations ticker start end_date sub lg =
     as_table (ask_holder env ticker (attr_of HoldersAndRecommendations sub) lg)"

subsection \<open>Read-through resolution of one key\<close>

text \<open>
  The shape all five functions share, used to reason about them at once: on a hit the
  file is loaded; otherwise the provider is asked, the answer is written when it is
  worth keeping, and returned.
\<close>

definition read_through ::
  "bool \<Rightarrow> string \<Rightarrow> (string \<Rightarrow> py_error + 'a) \<Rightarrow> request \<Rightarrow> (request list \<Rightarrow> py_error + 'r) \<Rightarrow>
   ('r \<Rightarrow> bool) \<Rightarrow> ('r \<Rightarrow> string) \<Rightarrow> ('r \<Rightarrow> 'a) \<Rightarrow> world \<Rightarrow> 'a outcome"
where
  "read_through use_cache p load rq answer keep enc ret w =
     (if use_cache \<and> fs_exists w p then
        (case fs_read w p of Inl e \<Rightarrow> (Inl e, w) | Inr text \<Rightarrow> (load text, w))
      else
        (let w1 = remote_call rq w in
         case answer (remote_log w) of
           Inl e \<Rightarrow> (Inl e, w1)
         | Inr x \<Rightarrow>
             if keep x then
               (case fs_write p (enc x) w1 of
                  (Inl e, w2) \<Rightarrow> (Inl e, w2)
                | (Inr u, w2) \<Rightarrow> (Inr (ret x), w2))
             else (Inr (ret x), w1)))"

definition resolve ::
  "('v, 'j, 's) env \<Rightarrow> data_kind \<Rightarrow> string \<Rightarrow> string \<Rightarrow> string option \<Rightarrow> bool \<Rightarrow> string option \<Rightarrow>
   world \<Rightarrow> ('v, 'j) payload outcome"
where
  "resolve env kind ticker start end_date use_cache sub =
     read_through use_cache (cache_file_of (ticker, kind, sub)) (decode env kind)
       (key_request kind ticker start end_date sub) (ask env kind ticker start end_date sub)
       (\<lambda>x. \<not> is_empty x) (encode env kind) (\<lambda>x. x)"

definition store_in ::
  "(string \<Rightarrow> string \<Rightarrow> world \<Rightarrow> 'a outcome) \<Rightarrow> string \<Rightarrow> string \<Rightarrow> (string \<times> 'a) list \<Rightarrow> world \<Rightarrow>
   (string \<times> 'a) list outcome"
where
  "store_in rt name attr d w =
     (case rt name attr w of
        (Inl e, w') \<Rightarrow> (Inl e, w')
      | (Inr v, w') \<Rightarrow> (Inr (AList.update name v d), w'))"

definition step_frame ::
  "(string \<Rightarrow> string) \<Rightarrow> (string \<Rightarrow> string \<Rightarrow> world \<Rightarrow> 'a outcome) \<Rightarrow> bool"
where
  "step_frame path rt \<longleftrightarrow>
     (\<forall>name attr w r w'. rt name attr w = (r, w') \<longrightarrow>
        faults w' = faults w \<and> (\<exists>lg. remote_log w' = remote_log w @ lg) \<and>
        (\<forall>q. q \<noteq> path name \<longrightarrow> files w' q = files w q))"

text \<open>
  What a call may change between two worlds: it only appends requests, and a file that
  differs is the cache file of one of the call's keys, whose request is among the
  appended ones.
\<close>

definition changes_by_fetch ::
  "data_kind \<Rightarrow> string \<Rightarrow> string \<Rightarrow> string option \<Rightarrow> world \<Rightarrow> world \<Rightarrow> bool"
where
  "changes_by_fetch kind t s e w w' \<longleftrightarrow>
     (\<exists>lg. remote_log w' = remote_log w @ lg \<and>
        (\<forall>q. files w' q \<noteq> files w q \<longrightarrow>
           (\<exists>sub \<in> set (sub_kinds kind).
              q = cache_file_of (t, kind, sub) \<and> key_request kind t s e sub \<in> set lg)))"

text \<open>
  A call is quiet for a key when, the key's file being there, it leaves a file there
  and adds no request for the key.
\<close>

definition quiet_for :: "string \<Rightarrow> request \<Rightarrow> world \<Rightarrow> world \<Rightarrow> bool" where
  "quiet_for p rq a b \<longleftrightarrow>
     (files a p \<noteq> None \<longrightarrow>
        files b p \<noteq> None \<and> (\<exists>lg. remote_log b = remote_log a @ lg \<and> rq \<notin> set lg))"

text \<open>
  A key is resolvable in a world when nothing stands in the way of the function: on a
  hit, the file decodes; otherwise the provider answers the key whenever it is asked
  and no write of the key's file is at fault.
\<close>

definition resolvable ::
  "('v, 'j, 's) env \<Rightarrow> data_kind \<Rightarrow> string \<Rightarrow> string \<Rightarrow> string option \<Rightarrow> bool \<Rightarrow> world \<Rightarrow>
   string option \<Rightarrow> bool"
where
  "resolvable env kind ticker start end_date use_cache w sub =
     (if use_cache \<and> fs_exists w (cache_file_of (ticker, kind, sub)) then
        (\<exists>text y. files w (cache_file_of (ticker, kind, sub)) = Some text \<and>
           decode env kind text = Inr y)
      else
        (\<forall>lg. \<exists>x. ask env kind ticker start end_date sub lg = Inr x) \<and>
        (\<forall>text. faults w (cache_file_of (ticker, kind, sub)) text = None))"

definition key_suffix :: "data_kind \<Rightarrow> string option \<Rightarrow> string" where
  "key_suffix kind sub = cache_file_of ([], kind, sub)"

section \<open>A provider stub and some cache states\<close>

text \<open>
  Concrete collaborators to run the functions on: a provider that knows the identifier
  \<^verbatim>\<open>ACME\<close> (two price rows from 2023-01-01, one from any other start date, one
  statement column, one metadata entry), answers
  \<^verbatim>\<open>None\<close> to the attribute lookups of \<^verbatim>\<open>NONE\<close>, and has nothing for any other
  identifier; adapters over a few fixed texts, with a date parser that knows the
  header \<^verbatim>\<open>2023-12-31\<close> and no other. Cells are kept as text.
\<close>

definition acme_prices :: "string frame" where
  "acme_prices =
     \<lparr>columns = Index [Text ''Close''],
      index = [Timestamp 1672617600, Timestamp 1672704000],
      cells = [[''100.0''], [''101.5'']]\<rparr>"

definition acme_prices_2024 :: "string frame" where
  "acme_prices_2024 =
     \<lparr>columns = Index [Text ''Close''],
      index = [Timestamp 1704153600],
      cells = [[''110.0'']]\<rparr>"

definition acme_statement :: "string frame" where
  "acme_statement =
     \<lparr>columns = Index [Timestamp 1703980800],
      index = [Text ''Total Revenue''],
      cells = [[''1000'']]\<rparr>"

definition acme_statement_read :: "string frame" where
  "acme_statement_read =
     \<lparr>columns = Index [Text ''FY2023''],
      index = [Text ''Total Revenue''],
      cells = [[''1000'']]\<rparr>"

definition acme_dated :: "string frame" where
  "acme_dated =
     \<lparr>columns = Index [Timestamp 1703980800],
      index = [Text ''Net Income''],
      cells = [[''250'']]\<rparr>"

definition acme_dated_read :: "string frame" where
  "acme_dated_read =
     \<lparr>columns = Index [Text ''2023-12-31''],
      index = [Text ''Net Income''],
      cells = [[''250'']]\<rparr>"

definition stub_env :: "(string, string, string list) env" where
  "stub_env =
     \<lparr>yf_download = (\<lambda>lg ticker start end_date.
        if ticker = ''ACME'' then
          (if start = ''2023-01-01'' then Inr acme_prices else Inr acme_prices_2024)
        else Inr DataFrame),
      yf_attr = (\<lambda>lg ticker attr.
        if ticker = ''ACME'' then Inr (Some acme_statement)
        else if ticker = ''NONE'' then Inr None
        else Inr (Some DataFrame)),
      yf_info = (\<lambda>lg ticker. if ticker = ''ACME'' then Inr [(''beta'', ''1.1'')] else Inr []),
      to_csv = (\<lambda>with_index df.
        if df = acme_prices then ''prices''
        else if df = acme_prices_2024 then ''prices2024''
        else if df = acme_dated then ''dated''
        else ''table''),
      read_csv = (\<lambda>index_col parse_dates text.
        if text = ''prices'' then Inr acme_prices
        else if text = ''prices2024'' then Inr acme_prices_2024
        else if text = ''table'' then Inr acme_statement_read
        else if text = ''dated'' then Inr acme_dated_read
        else Inl ParserError),
      to_datetime = (\<lambda>c.
        if c = Index [Text ''2023-12-31''] then Inr (Index [Timestamp 1703980800])
        else Inl ValueError),
      getitem = (\<lambda>df key.
        if columns df = Index [Text key] then Inr (map hd (cells df)) else Inl KeyError),
      json_dump = (\<lambda>info. ''json''),
      json_load = (\<lambda>text. if text = ''json'' then Inr [(''beta'', ''1.1'')] else Inl JSONDecodeError)\<rparr>"

definition fresh_world :: world where
  "fresh_world = \<lparr>files = Map.empty, faults = (\<lambda>p text. None), remote_log = []\<rparr>"

definition readonly_world :: world where
  "readonly_world = \<lparr>files = Map.empty, faults = (\<lambda>p text. Some (OpenFails OSError)), remote_log = []\<rparr>"

definition broken_disk_world :: world where
  "broken_disk_world =
     \<lparr>files = Map.empty, faults = (\<lambda>p text. Some (WriteFails OSError (take 3 text))),
      remote_log = []\<rparr>"

definition quarterly_partial_world :: world where
  "quarterly_partial_world =
     \<lparr>files = [''ACME_quarterly_balance_sheet.csv'' \<mapsto> ''table''], faults = (\<lambda>p text. None),
      remote_log = []\<rparr>"

definition holders_partial_world :: world where
  "holders_partial_world =
     \<lparr>files = [''ACME_major_holders.csv'' \<mapsto> ''table''], faults = (\<lambda>p text. None),
      remote_log = []\<rparr>"

definition partial_world :: world where
  "partial_world =
     \<lparr>files = [''ACME_balance_sheet.csv'' \<mapsto> ''table''], faults = (\<lambda>p text. None), remote_log = []\<rparr>"



definition acme_cached :: world where
  "acme_cached =
     \<lparr>files = [''ACME.csv'' \<mapsto> ''prices''], faults = (\<lambda>p text. None),
      remote_log = [Download ''ACME'' ''2023-01-01'' None]\<rparr>"

definition acme_statements_cached :: world where
  "acme_statements_cached =
     \<lparr>files = [''ACME_income_stmt.csv'' \<mapsto> ''table'', ''ACME_balance_sheet.csv'' \<mapsto> ''table'',
               ''ACME_cashflow.csv'' \<mapsto> ''table''],
      faults = (\<lambda>p text. None), remote_log = []\<rparr>"

definition none_asked :: world where
  "none_asked =
     \<lparr>files = Map.empty, faults = (\<lambda>p text. None),
      remote_log = [Attribute ''NONE'' ''institutional_holders'', Attribute ''NONE'' ''major_holders'',
                    Attribute ''NONE'' ''recommendations'']\<rparr>"

section \<open>Keyword defaults\<close>

text \<open>
  A call that leaves a keyword argument out gets the default of the signature:
  \<^verbatim>\<open>get_stock_data(ticker, start="2023-01-01", end=None, use_cache=True)\<close> and
  \<^verbatim>\<open>get_treasury_yield(ticker="^TNX", start="2019-01-01", end=None, use_cache=True)\<close>.
  An argument left out is \<open>None\<close> here; \<^verbatim>\<open>end\<close> is optional in the functions themselves.
\<close>

definition get_stock_data_kw ::
  "('v, 'j, 's) env \<Rightarrow> string \<Rightarrow> string option \<Rightarrow> string option \<Rightarrow> bool option \<Rightarrow> world \<Rightarrow>
   'v frame outcome"
where
  "get_stock_data_kw env ticker start end_date use_cache =
     get_stock_data env ticker
       (case start of None \<Rightarrow> ''2023-01-01'' | Some s \<Rightarrow> s) end_date
       (case use_cache of None \<Rightarrow> True | Some u \<Rightarrow> u)"

definition get_treasury_yield_kw ::
  "('v, 'j, 's) env \<Rightarrow> string option \<Rightarrow> string option \<Rightarrow> string option \<Rightarrow> bool option \<Rightarrow> world \<Rightarrow>
   's outcome"
where
  "get_treasury_yield_kw env ticker start end_date use_cache =
     get_treasury_yield env
       (case ticker of None \<Rightarrow> ''^TNX'' | Some t \<Rightarrow> t)
       (case start of None \<Rightarrow> ''2019-01-01'' | Some s \<Rightarrow> s) end_date
       (case use_cache of None \<Rightarrow> True | Some u \<Rightarrow> u)"

text \<open>
  The risk-free-rate accessor as the specification words it: the \<^verbatim>\<open>Close\<close> column of
  what the price-series accessor returned, in the world that accessor left.
\<close>

definition close_column :: "('v, 'j, 's) env \<Rightarrow> 'v frame outcome \<Rightarrow> 's outcome" where
  "close_column env out =
     (case out of
        (Inl e, w) \<Rightarrow> (Inl e, w)
      | (Inr df, w) \<Rightarrow> (getitem env df ''Close'', w))"
section \<open>How file names are built\<close>

lemmas cache_file_defs =
  stock_cache_file_def financials_cache_file_def quarterly_cache_file_def info_cache_file_def
  holders_cache_file_def

lemmas types_defs = financials_types_def quarterly_types_def holders_types_def

lemma cache_file_of_suffix: "cache_file_of (t, kind, sub) = t @ key_suffix kind sub"
  by (cases kind) (simp_all add: key_suffix_def cache_file_defs)

lemma valid_suffix_cases:
  assumes "sub \<in> set (sub_kinds kind)"
  shows "key_suffix kind sub = ''.csv'' \<or> (\<exists>r. key_suffix kind sub = CHR ''_'' # r)"
  using assms by (cases kind) (auto simp: key_suffix_def cache_file_defs types_defs)

lemma key_suffix_inj:
  assumes "sub \<in> set (sub_kinds kind)" "sub' \<in> set (sub_kinds kind')"
    and "key_suffix kind sub = key_suffix kind' sub'"
  shows "kind = kind' \<and> sub = sub'"
  using assms
  by (cases kind; cases kind') (auto simp: key_suffix_def cache_file_defs types_defs)

lemma takeWhile_no_sep:
  "CHR ''_'' \<notin> set t \<Longrightarrow> takeWhile (\<lambda>c. c \<noteq> CHR ''_'') (t @ CHR ''_'' # r) = t"
  by (induction t) auto

lemma prefix_unique:
  assumes t1: "CHR ''_'' \<notin> set t1" and t2: "CHR ''_'' \<notin> set t2"
    and s1: "s1 = ''.csv'' \<or> (\<exists>r. s1 = CHR ''_'' # r)"
    and s2: "s2 = ''.csv'' \<or> (\<exists>r. s2 = CHR ''_'' # r)"
    and eq: "t1 @ s1 = t2 @ s2"
  shows "t1 = t2"
proof -
  have tw: "\<And>t s. CHR ''_'' \<notin> set t \<Longrightarrow> s = ''.csv'' \<or> (\<exists>r. s = CHR ''_'' # r) \<Longrightarrow>
      takeWhile (\<lambda>c. c \<noteq> CHR ''_'') (t @ s) = (if s = ''.csv'' then t @ s else t)"
    by (auto simp: takeWhile_no_sep)
  from eq have e: "takeWhile (\<lambda>c. c \<noteq> CHR ''_'') (t1 @ s1) = takeWhile (\<lambda>c. c \<noteq> CHR ''_'') (t2 @ s2)"
    by simp
  show ?thesis
  proof (cases "s1 = ''.csv''"; cases "s2 = ''.csv''")
    assume "s1 = ''.csv''" "s2 = ''.csv''"
    with eq show ?thesis by simp
  next
    assume a: "s1 = ''.csv''" "s2 \<noteq> ''.csv''"
    with e tw[OF t1 s1] tw[OF t2 s2] have "t1 @ s1 = t2" by simp
    with eq have "length (t2 @ s2) = length t2" by simp
    with s2 a show ?thesis by auto
  next
    assume a: "s1 \<noteq> ''.csv''" "s2 = ''.csv''"
    with e tw[OF t1 s1] tw[OF t2 s2] have "t1 = t2 @ s2" by simp
    with eq have "length (t1 @ s1) = length t1" by simp
    with s1 a show ?thesis by auto
  next
    assume a: "s1 \<noteq> ''.csv''" "s2 \<noteq> ''.csv''"
    with e tw[OF t1 s1] tw[OF t2 s2] show ?thesis by simp
  qed
qed

section \<open>The functions follow one read-through shape\<close>

lemma rt_hit:
  "use_cache \<Longrightarrow> files w p = Some text \<Longrightarrow>
   read_through use_cache p load rq answer keep enc ret w = (load text, w)"
  by (simp add: read_through_def fs_exists_def fs_read_def)

lemma rt_miss:
  "\<not> (use_cache \<and> fs_exists w p) \<Longrightarrow>
   read_through use_cache p load rq answer keep enc ret w =
     (case answer (remote_log w) of
        Inl e \<Rightarrow> (Inl e, remote_call rq w)
      | Inr x \<Rightarrow>
          if keep x then
            (case faults w p (enc x) of
               None \<Rightarrow> (Inr (ret x), (remote_call rq w)\<lparr>files := (files w)(p \<mapsto> enc x)\<rparr>)
             | Some (OpenFails e) \<Rightarrow> (Inl e, remote_call rq w)
             | Some (WriteFails e left) \<Rightarrow>
                 (Inl e, (remote_call rq w)\<lparr>files := (files w)(p \<mapsto> left)\<rparr>))
          else (Inr (ret x), remote_call rq w))"
  by (auto simp: read_through_def fs_write_def remote_call_def Let_def
      split: sum.splits option.splits fault.splits)

lemma rt_frame:
  assumes "read_through use_cache p load rq answer keep enc ret w = (r, w')"
  shows "faults w' = faults w"
    and "\<exists>lg. remote_log w' = remote_log w @ lg"
    and "q \<noteq> p \<Longrightarrow> files w' q = files w q"
  using assms
  by (auto simp: read_through_def fs_write_def remote_call_def fs_read_def Let_def
      split: sum.splits if_splits option.splits fault.splits)

lemma rt_keeps:
  assumes "read_through True p load rq answer keep enc ret w = (r, w')" "files w q = Some c"
  shows "files w' q = Some c"
  using assms
  by (auto simp: read_through_def fs_write_def remote_call_def fs_read_def fs_exists_def Let_def
      split: sum.splits if_splits option.splits fault.splits)

lemma rt_dom:
  assumes "read_through use_cache p load rq answer keep enc ret w = (r, w')" "files w q \<noteq> None"
  shows "files w' q \<noteq> None"
  using assms
  by (auto simp: read_through_def fs_write_def remote_call_def fs_read_def fs_exists_def Let_def
      split: sum.splits if_splits option.splits fault.splits)

lemma for_items_rel:
  assumes run: "for_items items body d w = (r, w')"
    and step: "\<And>name attr d w r w'. (name, attr) \<in> set items \<Longrightarrow> body name attr d w = (r, w') \<Longrightarrow> P w w'"
    and refl: "\<And>w. P w w"
    and trans: "\<And>a b c. P a b \<Longrightarrow> P b c \<Longrightarrow> P a c"
  shows "P w w'"
  using run step
proof (induction items arbitrary: d w)
  case Nil
  then show ?case by (simp add: refl)
next
  case (Cons item items)
  obtain name attr where item: "item = (name, attr)" by (cases item)
  obtain r1 w1 where b: "body name attr d w = (r1, w1)" by (cases "body name attr d w")
  have p1: "P w w1" using Cons.prems(2)[of name attr d w r1 w1] b item by simp
  show ?case
  proof (cases r1)
    case (Inl e)
    with Cons.prems(1) b item have "w' = w1" by simp
    with p1 show ?thesis by simp
  next
    case (Inr d1)
    with Cons.prems(1) b item have "for_items items body d1 w1 = (r, w')" by simp
    moreover have "\<And>name attr d w r w'. (name, attr) \<in> set items \<Longrightarrow> body name attr d w = (r, w') \<Longrightarrow> P w w'"
      using Cons.prems(2) by (meson list.set_intros(2))
    ultimately have "P w1 w'" by (rule Cons.IH)
    with p1 show ?thesis by (rule trans)
  qed
qed

lemma store_in_Inr:
  "store_in rt name attr d w = (Inr d', w') \<longleftrightarrow>
   (\<exists>v. rt name attr w = (Inr v, w') \<and> d' = AList.update name v d)"
  by (auto simp: store_in_def split: prod.splits sum.splits)

lemma store_in_world:
  "store_in rt name attr d w = (r, w') \<Longrightarrow> \<exists>r0. rt name attr w = (r0, w')"
  by (auto simp: store_in_def split: prod.splits sum.splits)

lemma for_items_other_key:
  assumes "for_items items (store_in rt) d w = (Inr d', w')" "k \<notin> fst ` set items"
  shows "map_of d' k = map_of d k"
  using assms
proof (induction items arbitrary: d w)
  case Nil
  then show ?case by simp
next
  case (Cons item items)
  obtain name attr where item: "item = (name, attr)" by (cases item)
  from Cons.prems(1) item obtain d1 w1 where
    s: "store_in rt name attr d w = (Inr d1, w1)" and r: "for_items items (store_in rt) d1 w1 = (Inr d', w')"
    by (auto split: prod.splits sum.splits)
  from s obtain v where d1: "d1 = AList.update name v d" by (auto simp: store_in_Inr)
  have "map_of d' k = map_of d1 k" using Cons.IH[OF r] Cons.prems(2) by simp
  also have "\<dots> = map_of d k" using Cons.prems(2) item d1 by (simp add: update_conv')
  finally show ?case .
qed

lemma for_items_frame:
  assumes run: "for_items items (store_in rt) d w = (r, w')" and sf: "step_frame path rt"
  shows "faults w' = faults w \<and> (\<exists>lg. remote_log w' = remote_log w @ lg) \<and>
         (\<forall>q. q \<notin> path ` fst ` set items \<longrightarrow> files w' q = files w q)"
  using run
proof (induction items arbitrary: d w)
  case Nil
  then show ?case by simp
next
  case (Cons item items)
  obtain name attr where item: "item = (name, attr)" by (cases item)
  obtain r1 w1 where b: "store_in rt name attr d w = (r1, w1)" by (cases "store_in rt name attr d w")
  then obtain r0 where r0: "rt name attr w = (r0, w1)" using store_in_world by blast
  from sf r0 have f1: "faults w1 = faults w" "\<exists>lg. remote_log w1 = remote_log w @ lg"
    "\<forall>q. q \<noteq> path name \<longrightarrow> files w1 q = files w q"
    unfolding step_frame_def by blast+
  show ?case
  proof (cases r1)
    case (Inl e)
    with Cons.prems b item have "w' = w1" by simp
    with f1 item show ?thesis by auto
  next
    case (Inr d1)
    with Cons.prems b item have "for_items items (store_in rt) d1 w1 = (r, w')" by simp
    from Cons.IH[OF this] f1 item show ?thesis by auto
  qed
qed

lemma for_items_Inr:
  assumes run: "for_items items (store_in rt) d w = (Inr d', w')"
    and sf: "step_frame path rt"
    and dist: "distinct (map (path \<circ> fst) items)"
    and mem: "(name, attr) \<in> set items"
  shows "\<exists>wk v wk' lg lg'. rt name attr wk = (Inr v, wk') \<and> map_of d' name = Some v \<and>
           files wk (path name) = files w (path name) \<and> files w' (path name) = files wk' (path name) \<and>
           faults wk = faults w \<and> remote_log wk = remote_log w @ lg \<and>
           remote_log w' = remote_log wk' @ lg'"
  using run dist mem
proof (induction items arbitrary: d w)
  case Nil
  then show ?case by simp
next
  case (Cons item items)
  obtain n a where item: "item = (n, a)" by (cases item)
  from Cons.prems(1) item obtain d1 w1 where
    s: "store_in rt n a d w = (Inr d1, w1)" and r: "for_items items (store_in rt) d1 w1 = (Inr d', w')"
    by (auto split: prod.splits sum.splits)
  from s obtain v1 where v1: "rt n a w = (Inr v1, w1)" and d1: "d1 = AList.update n v1 d"
    by (auto simp: store_in_Inr)
  from Cons.prems(2) item have fresh: "path n \<notin> path ` fst ` set items" and dist': "distinct (map (path \<circ> fst) items)"
    by (auto simp: image_image comp_def)
  have fr: "faults w' = faults w1" "\<exists>lg. remote_log w' = remote_log w1 @ lg"
    "\<forall>q. q \<notin> path ` fst ` set items \<longrightarrow> files w' q = files w1 q"
    using for_items_frame[OF r sf] by blast+
  from sf v1 have f1: "faults w1 = faults w" "\<exists>lg. remote_log w1 = remote_log w @ lg"
    "\<forall>q. q \<noteq> path n \<longrightarrow> files w1 q = files w q"
    unfolding step_frame_def by blast+
  show ?case
  proof (cases "(name, attr) = (n, a)")
    case True
    have nk: "n \<notin> fst ` set items" using fresh by auto
    have "map_of d' n = map_of d1 n" using for_items_other_key[OF r nk] .
    then have m: "map_of d' name = Some v1" using d1 True by (simp add: update_conv')
    from fr(2) obtain lg' where lg': "remote_log w' = remote_log w1 @ lg'" by blast
    have "rt name attr w = (Inr v1, w1) \<and> map_of d' name = Some v1 \<and>
           files w (path name) = files w (path name) \<and> files w' (path name) = files w1 (path name) \<and>
           faults w = faults w \<and> remote_log w = remote_log w @ [] \<and>
           remote_log w' = remote_log w1 @ lg'"
      using True v1 m fr(3) fresh lg' by auto
    then show ?thesis by blast
  next
    case False
    with Cons.prems(3) item have mem': "(name, attr) \<in> set items" by auto
    from Cons.IH[OF r dist' mem'] obtain wk v wk' lg lg' where
      k: "rt name attr wk = (Inr v, wk')" "map_of d' name = Some v"
         "files wk (path name) = files w1 (path name)" "files w' (path name) = files wk' (path name)"
         "faults wk = faults w1" "remote_log wk = remote_log w1 @ lg"
         "remote_log w' = remote_log wk' @ lg'"
      by blast
    have "path name \<in> path ` fst ` set items" using mem' by (metis fst_conv image_eqI)
    with fresh have ne: "path name \<noteq> path n" by metis
    from f1(2) obtain lg1 where lg1: "remote_log w1 = remote_log w @ lg1" by blast
    have "rt name attr wk = (Inr v, wk') \<and> map_of d' name = Some v \<and>
           files wk (path name) = files w (path name) \<and> files w' (path name) = files wk' (path name) \<and>
           faults wk = faults w \<and> remote_log wk = remote_log w @ (lg1 @ lg) \<and>
           remote_log w' = remote_log wk' @ lg'"
      using k f1 ne lg1 by auto
    then show ?thesis by blast
  qed
qed



lemma fetch_single:
  "kind = PriceSeries \<or> kind = CompanyInfo \<Longrightarrow>
   fetch env kind ticker start end_date use_cache w =
     returning Single (resolve env kind ticker start end_date use_cache None w)"
  by (auto simp: fetch_def resolve_def returning_def read_through_def get_stock_data_def
      get_company_info_def ask_download_def as_table_def as_document_def Let_def
      split: sum.splits prod.splits)

lemma map_table_update:
  "map (\<lambda>(name, df). (name, Table df)) (AList.update k v d) =
   AList.update k (Table v) (map (\<lambda>(name, df). (name, Table df)) d)"
  by (induction d) auto

lemma attr_of_types:
  "(name, attr) \<in> set financials_types \<Longrightarrow> attr_of AnnualStatements (Some name) = attr"
  "(name, attr) \<in> set quarterly_types \<Longrightarrow> attr_of QuarterlyStatements (Some name) = attr"
  "(name, attr) \<in> set holders_types \<Longrightarrow> attr_of HoldersAndRecommendations (Some name) = attr"
  by (auto simp: attr_of_def financials_types_def quarterly_types_def holders_types_def)

lemma financials_body_resolve:
  assumes "(name, attr) \<in> set financials_types"
  shows "returning (map (\<lambda>(name, df). (name, Table df))) (financials_body env ticker use_cache name attr d w) =
     store_in (\<lambda>name attr. resolve env AnnualStatements ticker start end_date use_cache (Some name))
       name attr (map (\<lambda>(name, df). (name, Table df)) d) w"
  using attr_of_types(1)[OF assms]
  by (auto simp: financials_body_def resolve_def returning_def read_through_def store_in_def
       load_statement_def as_table_def ask_statement_def Let_def map_table_update
      split: sum.splits prod.splits option.splits)

lemma quarterly_body_resolve:
  assumes "(name, attr) \<in> set quarterly_types"
  shows "returning (map (\<lambda>(name, df). (name, Table df))) (quarterly_body env ticker use_cache name attr d w) =
     store_in (\<lambda>name attr. resolve env QuarterlyStatements ticker start end_date use_cache (Some name))
       name attr (map (\<lambda>(name, df). (name, Table df)) d) w"
  using attr_of_types(2)[OF assms]
  by (auto simp: quarterly_body_def resolve_def returning_def read_through_def store_in_def
       load_statement_def as_table_def ask_statement_def Let_def map_table_update
      split: sum.splits prod.splits option.splits)

lemma df_empty_DataFrame: "df_empty DataFrame"
  by (simp add: df_empty_def DataFrame_def)

lemma holders_body_resolve:
  assumes "(name, attr) \<in> set holders_types"
  shows "returning (map (\<lambda>(name, df). (name, Table df))) (holders_body env ticker use_cache name attr d w) =
     store_in (\<lambda>name attr. resolve env HoldersAndRecommendations ticker start end_date use_cache (Some name))
       name attr (map (\<lambda>(name, df). (name, Table df)) d) w"
  using attr_of_types(3)[OF assms]
  by (auto simp: holders_body_def resolve_def returning_def read_through_def store_in_def
       as_table_def ask_holder_def ret_holder_def Let_def map_table_update df_empty_DataFrame
       holders_cache_file_def
      split: sum.splits prod.splits option.splits)

lemma for_items_returning:
  assumes "\<And>name attr d w. (name, attr) \<in> set items \<Longrightarrow>
     returning (map g) (body name attr d w) = body' name attr (map g d) w"
  shows "returning (map g) (for_items items body d w) = for_items items body' (map g d) w"
  using assms
proof (induction items arbitrary: d w)
  case Nil
  then show ?case by (simp add: returning_def)
next
  case (Cons item items)
  obtain name attr where item: "item = (name, attr)" by (cases item)
  have step: "returning (map g) (body name attr d w) = body' name attr (map g d) w"
    using Cons.prems item by simp
  have rest: "\<And>d w. returning (map g) (for_items items body d w) = for_items items body' (map g d) w"
    using Cons.IH Cons.prems by simp
  obtain r1 w1 where b: "body name attr d w = (r1, w1)" by (cases "body name attr d w")
  show ?case
  proof (cases r1)
    case (Inl e)
    with b step have "body' name attr (map g d) w = (Inl e, w1)" by (simp add: returning_def)
    with b Inl item show ?thesis by (simp add: returning_def)
  next
    case (Inr d1)
    with b step have "body' name attr (map g d) w = (Inr (map g d1), w1)" by (simp add: returning_def)
    with b Inr item rest[of d1 w1] show ?thesis by simp
  qed
qed

lemma fetch_bundle:
  "kind = AnnualStatements \<or> kind = QuarterlyStatements \<or> kind = HoldersAndRecommendations \<Longrightarrow>
   fetch env kind ticker start end_date use_cache w =
     returning Bundle (for_items (types_of kind)
       (store_in (\<lambda>name attr. resolve env kind ticker start end_date use_cache (Some name))) [] w)"
proof -
  have r: "\<And>out. returning tables out = returning Bundle (returning (map (\<lambda>(name, df). (name, Table df))) out)"
    by (auto simp: returning_def tables_def split: prod.splits sum.splits)
  assume "kind = AnnualStatements \<or> kind = QuarterlyStatements \<or> kind = HoldersAndRecommendations"
  then show ?thesis
  proof (elim disjE)
    assume k: "kind = AnnualStatements"
    show ?thesis unfolding k
      using for_items_returning[of financials_types "\<lambda>(name, df). (name, Table df)"
          "financials_body env ticker use_cache" _ "[]" w, OF financials_body_resolve]
      by (simp add: fetch_def get_company_financials_def r)
  next
    assume k: "kind = QuarterlyStatements"
    show ?thesis unfolding k
      using for_items_returning[of quarterly_types "\<lambda>(name, df). (name, Table df)"
          "quarterly_body env ticker use_cache" _ "[]" w, OF quarterly_body_resolve]
      by (simp add: fetch_def get_quarterly_financials_def r)
  next
    assume k: "kind = HoldersAndRecommendations"
    show ?thesis unfolding k
      using for_items_returning[of holders_types "\<lambda>(name, df). (name, Table df)"
          "holders_body env ticker use_cache" _ "[]" w, OF holders_body_resolve]
      by (simp add: fetch_def get_holders_and_recommendations_def r)
  qed
qed
section \<open>What a successful fetch did for one key\<close>

lemma resolve_hit:
  "files w (cache_file_of (t, kind, sub)) = Some text \<Longrightarrow>
   resolve env kind t s e True sub w = (decode env kind text, w)"
  by (simp add: resolve_def rt_hit)

lemma resolve_miss:
  "\<not> (u \<and> fs_exists w (cache_file_of (t, kind, sub))) \<Longrightarrow>
   resolve env kind t s e u sub w =
     (case ask env kind t s e sub (remote_log w) of
        Inl err \<Rightarrow> (Inl err, remote_call (key_request kind t s e sub) w)
      | Inr x \<Rightarrow>
          if \<not> is_empty x then
            (case faults w (cache_file_of (t, kind, sub)) (encode env kind x) of
               None \<Rightarrow>
                 (Inr x, (remote_call (key_request kind t s e sub) w)
                     \<lparr>files := (files w)(cache_file_of (t, kind, sub) \<mapsto> encode env kind x)\<rparr>)
             | Some (OpenFails err) \<Rightarrow> (Inl err, remote_call (key_request kind t s e sub) w)
             | Some (WriteFails err left) \<Rightarrow>
                 (Inl err, (remote_call (key_request kind t s e sub) w)
                     \<lparr>files := (files w)(cache_file_of (t, kind, sub) \<mapsto> left)\<rparr>))
          else (Inr x, remote_call (key_request kind t s e sub) w))"
  unfolding resolve_def by (rule rt_miss)

lemma resolve_step_frame:
  "step_frame (\<lambda>name. cache_file_of (t, kind, Some name))
     (\<lambda>name attr. resolve env kind t s e u (Some name))"
  unfolding step_frame_def resolve_def
proof (intro allI impI)
  fix name attr :: string and w :: world and r :: "py_error + ('a, 'b) payload" and w' :: world
  assume a: "read_through u (cache_file_of (t, kind, Some name)) (decode env kind)
       (key_request kind t s e (Some name)) (ask env kind t s e (Some name))
       (\<lambda>x. \<not> is_empty x) (encode env kind) (\<lambda>x. x) w = (r, w')"
  show "faults w' = faults w \<and> (\<exists>lg. remote_log w' = remote_log w @ lg) \<and>
       (\<forall>q. q \<noteq> cache_file_of (t, kind, Some name) \<longrightarrow> files w' q = files w q)"
    using rt_frame(1)[OF a] rt_frame(2)[OF a] rt_frame(3)[OF a] by simp
qed

lemma bundle_paths_distinct:
  "distinct (map ((\<lambda>name. cache_file_of (t, kind, Some name)) \<circ> fst) (types_of kind))"
  by (cases kind) (simp_all add: types_defs cache_file_defs)

lemma bundle_names_distinct: "distinct (map fst (types_of kind))"
  by (cases kind) (simp_all add: types_defs)

lemma sub_kinds_single:
  "kind = PriceSeries \<or> kind = CompanyInfo \<Longrightarrow> sub \<in> set (sub_kinds kind) \<longleftrightarrow> sub = None"
  by auto

lemma sub_kinds_bundle:
  "kind = AnnualStatements \<or> kind = QuarterlyStatements \<or> kind = HoldersAndRecommendations \<Longrightarrow>
   sub \<in> set (sub_kinds kind) \<longleftrightarrow> (\<exists>name attr. sub = Some name \<and> (name, attr) \<in> set (types_of kind))"
  by (elim disjE) (auto simp: image_iff types_defs)

lemma kind_cases:
  "(kind = PriceSeries \<or> kind = CompanyInfo) \<or>
   (kind = AnnualStatements \<or> kind = QuarterlyStatements \<or> kind = HoldersAndRecommendations)"
  by (cases kind) simp_all

lemma returning_Inr:
  "returning f out = (Inr v, w') \<longleftrightarrow> (\<exists>v0. out = (Inr v0, w') \<and> v = f v0)"
  by (auto simp: returning_def split: prod.splits sum.splits)

lemma returning_world: "snd (returning f out) = snd out"
  by (auto simp: returning_def split: prod.splits sum.splits)

lemma fetch_key:
  assumes run: "fetch env kind t s e u w = (Inr v, w')" and sub: "sub \<in> set (sub_kinds kind)"
  shows "\<exists>wk x wk' lg lg'.
           resolve env kind t s e u sub wk = (Inr x, wk') \<and> component v sub = Some x \<and>
           files wk (cache_file_of (t, kind, sub)) = files w (cache_file_of (t, kind, sub)) \<and>
           files w' (cache_file_of (t, kind, sub)) = files wk' (cache_file_of (t, kind, sub)) \<and>
           faults wk = faults w \<and> remote_log wk = remote_log w @ lg \<and>
           remote_log w' = remote_log wk' @ lg'"
proof (rule disjE[OF kind_cases[of kind]])
  assume k: "kind = PriceSeries \<or> kind = CompanyInfo"
  with sub have s0: "sub = None" by (simp add: sub_kinds_single)
  from run obtain x where x: "resolve env kind t s e u None w = (Inr x, w')" "v = Single x"
    unfolding fetch_single[OF k] returning_Inr by blast
  have "resolve env kind t s e u sub w = (Inr x, w') \<and> component v sub = Some x \<and>
           files w (cache_file_of (t, kind, sub)) = files w (cache_file_of (t, kind, sub)) \<and>
           files w' (cache_file_of (t, kind, sub)) = files w' (cache_file_of (t, kind, sub)) \<and>
           faults w = faults w \<and> remote_log w = remote_log w @ [] \<and>
           remote_log w' = remote_log w' @ []"
    using x s0 by simp
  then show ?thesis by blast
next
  assume k: "kind = AnnualStatements \<or> kind = QuarterlyStatements \<or> kind = HoldersAndRecommendations"
  with sub obtain name attr where s0: "sub = Some name" and mem: "(name, attr) \<in> set (types_of kind)"
    by (auto simp: sub_kinds_bundle)
  from run obtain b where
    b: "for_items (types_of kind)
          (store_in (\<lambda>name attr. resolve env kind t s e u (Some name))) [] w = (Inr b, w')"
      "v = Bundle b"
    unfolding fetch_bundle[OF k] returning_Inr by blast
  from for_items_Inr[OF b(1) resolve_step_frame bundle_paths_distinct mem]
  show ?thesis using b(2) s0 by simp
qed

lemma fetch_key_cases:
  assumes run: "fetch env kind t s e u w = (Inr v, w')" and sub: "sub \<in> set (sub_kinds kind)"
  shows "\<exists>x. component v sub = Some x \<and>
     (if u \<and> fs_exists w (cache_file_of (t, kind, sub)) then
        (\<exists>text. files w (cache_file_of (t, kind, sub)) = Some text \<and> decode env kind text = Inr x \<and>
                files w' (cache_file_of (t, kind, sub)) = Some text)
      else
        (\<exists>lg lg'. remote_log w' = remote_log w @ lg @ key_request kind t s e sub # lg' \<and>
           ask env kind t s e sub (remote_log w @ lg) = Inr x \<and>
           (if is_empty x then files w' (cache_file_of (t, kind, sub)) = files w (cache_file_of (t, kind, sub))
            else faults w (cache_file_of (t, kind, sub)) (encode env kind x) = None \<and>
                 files w' (cache_file_of (t, kind, sub)) = Some (encode env kind x))))"
proof -
  let ?p = "cache_file_of (t, kind, sub)"
  from fetch_key[OF run sub] obtain wk x wk' lg lg' where
    k: "resolve env kind t s e u sub wk = (Inr x, wk')" "component v sub = Some x"
       "files wk ?p = files w ?p" "files w' ?p = files wk' ?p"
       "faults wk = faults w" "remote_log wk = remote_log w @ lg"
       "remote_log w' = remote_log wk' @ lg'"
    by blast
  show ?thesis
  proof (cases "u \<and> fs_exists w ?p")
    case True
    then obtain c where c: "files w ?p = Some c" by (auto simp: fs_exists_def)
    with k(3) have "files wk ?p = Some c" by simp
    from resolve_hit[OF this, of env s e] k(1) True have "decode env kind c = Inr x" "wk' = wk"
      by simp_all
    with k c True show ?thesis by auto
  next
    case False
    with k(3) have miss: "\<not> (u \<and> fs_exists wk ?p)" by (simp add: fs_exists_def)
    from k(1) have a: "ask env kind t s e sub (remote_log w @ lg) = Inr x"
      unfolding resolve_miss[OF miss] k(6) by (auto split: sum.splits if_splits option.splits fault.splits)
    from k(1) have l: "remote_log wk' = remote_log wk @ [key_request kind t s e sub]"
      unfolding resolve_miss[OF miss] by (auto simp: remote_call_def split: sum.splits if_splits option.splits fault.splits)
    from k(1) a have f: "if is_empty x then files wk' ?p = files wk ?p
        else faults wk ?p (encode env kind x) = None \<and> files wk' ?p = Some (encode env kind x)"
      unfolding resolve_miss[OF miss] k(6) by (auto simp: remote_call_def split: sum.splits if_splits option.splits fault.splits)
    have "remote_log w' = remote_log w @ lg @ key_request kind t s e sub # lg'"
      using k(6,7) l by simp
    with a f k False show ?thesis by auto
  qed
qed

lemma update_fresh: "k \<notin> fst ` set d \<Longrightarrow> AList.update k v d = d @ [(k, v)]"
  by (induction d) auto

lemma for_items_keys:
  assumes "for_items items (store_in rt) d w = (Inr d', w')"
    and "distinct (map fst items)" and "fst ` set items \<inter> fst ` set d = {}"
  shows "\<exists>vs. length vs = length items \<and> d' = d @ zip (map fst items) vs"
  using assms
proof (induction items arbitrary: d w)
  case Nil
  then show ?case by simp
next
  case (Cons item items)
  obtain n a where item: "item = (n, a)" by (cases item)
  from Cons.prems(1) item obtain d1 w1 where
    s: "store_in rt n a d w = (Inr d1, w1)" and r: "for_items items (store_in rt) d1 w1 = (Inr d', w')"
    by (auto split: prod.splits sum.splits)
  from s obtain v1 where "d1 = AList.update n v1 d" by (auto simp: store_in_Inr)
  moreover have "n \<notin> fst ` set d" using Cons.prems(3) item by auto
  ultimately have d1: "d1 = d @ [(n, v1)]" by (simp add: update_fresh)
  have "distinct (map fst items)" using Cons.prems(2) by simp
  moreover have "fst ` set items \<inter> fst ` set d1 = {}"
    using Cons.prems(2,3) item d1 by auto
  ultimately obtain vs where vs: "length vs = length items" "d' = d1 @ zip (map fst items) vs"
    using Cons.IH[OF r] by blast
  have "length (v1 # vs) = length (item # items) \<and> d' = d @ zip (map fst (item # items)) (v1 # vs)"
    using vs d1 item by simp
  then show ?case by blast
qed

lemma fetch_bundle_keys:
  assumes k: "kind = AnnualStatements \<or> kind = QuarterlyStatements \<or> kind = HoldersAndRecommendations"
    and run: "fetch env kind t s e u w = (Inr v, w')"
  shows "\<exists>b. v = Bundle b \<and> map fst b = map fst (types_of kind)"
proof -
  from run obtain b where
    b: "for_items (types_of kind)
          (store_in (\<lambda>name attr. resolve env kind t s e u (Some name))) [] w = (Inr b, w')"
      "v = Bundle b"
    unfolding fetch_bundle[OF k] returning_Inr by blast
  from for_items_keys[OF b(1) bundle_names_distinct] obtain vs where
    "length vs = length (types_of kind)" "b = zip (map fst (types_of kind)) vs" by auto
  then have "map fst b = map fst (types_of kind)" by simp
  with b(2) show ?thesis by blast
qed



lemmas model_defs =
  fetch_def returning_def tables_def get_stock_data_def get_company_info_def
  get_company_financials_def get_quarterly_financials_def get_holders_and_recommendations_def
  financials_body_def quarterly_body_def holders_body_def
  fs_exists_def fs_read_def fs_write_def remote_call_def flatten_columns_def
  reparse_columns_def set_columns_def df_empty_def DataFrame_def
  as_table_def as_document_def load_statement_def
  ask_download_def ask_statement_def ask_holder_def ret_holder_def attr_of_def

lemmas stub_defs =
  stub_env_def acme_prices_def acme_prices_2024_def acme_statement_def acme_statement_read_def
  acme_dated_def acme_dated_read_def
  fresh_world_def readonly_world_def partial_world_def broken_disk_world_def
  quarterly_partial_world_def holders_partial_world_def



lemma resolve_miss_log:
  assumes "\<not> (u \<and> fs_exists w (cache_file_of (t, kind, sub)))"
    and "resolve env kind t s e u sub w = (r, w')"
  shows "remote_log w' = remote_log w @ [key_request kind t s e sub]"
  using assms(2) unfolding resolve_miss[OF assms(1)]
  by (auto simp: remote_call_def split: sum.splits if_splits option.splits fault.splits)

lemma fetch_rel:
  assumes run: "fetch env kind t s e u w = (r, w')"
    and step: "\<And>sub w r w'. sub \<in> set (sub_kinds kind) \<Longrightarrow>
                 resolve env kind t s e u sub w = (r, w') \<Longrightarrow> P w w'"
    and refl: "\<And>w. P w w"
    and trans: "\<And>a b c. P a b \<Longrightarrow> P b c \<Longrightarrow> P a c"
  shows "P w w'"
proof (rule disjE[OF kind_cases[of kind]])
  assume k: "kind = PriceSeries \<or> kind = CompanyInfo"
  from run have "snd (resolve env kind t s e u None w) = w'"
    unfolding fetch_single[OF k] using returning_world[of Single] by (metis snd_conv)
  then obtain r0 where "resolve env kind t s e u None w = (r0, w')"
    by (cases "resolve env kind t s e u None w") simp
  moreover have "None \<in> set (sub_kinds kind)" using k by auto
  ultimately show ?thesis using step by blast
next
  assume k: "kind = AnnualStatements \<or> kind = QuarterlyStatements \<or> kind = HoldersAndRecommendations"
  let ?body = "store_in (\<lambda>name attr. resolve env kind t s e u (Some name))"
  from run have "snd (for_items (types_of kind) ?body [] w) = w'"
    unfolding fetch_bundle[OF k] using returning_world[of Bundle] by (metis snd_conv)
  then obtain r0 where r0: "for_items (types_of kind) ?body [] w = (r0, w')"
    by (cases "for_items (types_of kind) ?body [] w") simp
  show ?thesis
  proof (rule for_items_rel[OF r0 _ refl trans])
    fix name attr :: string and d :: "(string \<times> ('a, 'b) payload) list" and w r w'
    assume mem: "(name, attr) \<in> set (types_of kind)" and b: "?body name attr d w = (r, w')"
    from b obtain r1 where "resolve env kind t s e u (Some name) w = (r1, w')"
      using store_in_world by blast
    moreover have "Some name \<in> set (sub_kinds kind)" using mem k by (auto simp: sub_kinds_bundle)
    ultimately show "P w w'" using step by blast
  qed
qed

lemma resolve_keeps:
  assumes "resolve env kind t s e True sub w = (r, w')" "files w q = Some c"
  shows "files w' q = Some c"
  using assms unfolding resolve_def by (rule rt_keeps)

lemma resolve_dom:
  assumes "resolve env kind t s e u sub w = (r, w')" "files w q \<noteq> None"
  shows "files w' q \<noteq> None"
  using assms unfolding resolve_def by (rule rt_dom)

lemma resolve_change:
  assumes "resolve env kind t s e u sub w = (r, w')"
  shows "\<exists>lg. remote_log w' = remote_log w @ lg \<and>
           (\<forall>q. files w' q \<noteq> files w q \<longrightarrow>
              q = cache_file_of (t, kind, sub) \<and> key_request kind t s e sub \<in> set lg)"
  using assms
  by (auto simp: resolve_def read_through_def fs_write_def remote_call_def fs_read_def Let_def
      split: sum.splits if_splits option.splits fault.splits)

lemma fetch_keeps:
  assumes "fetch env kind t s e True w = (r, w')"
  shows "\<forall>q c. files w q = Some c \<longrightarrow> files w' q = Some c"
proof (rule fetch_rel[OF assms, where P = "\<lambda>w w'. \<forall>q c. files w q = Some c \<longrightarrow> files w' q = Some c"])
  fix sub w r w'
  assume "resolve env kind t s e True sub w = (r, w')"
  then show "\<forall>q c. files w q = Some c \<longrightarrow> files w' q = Some c"
    using resolve_keeps by blast
qed auto

lemma fetch_dom:
  assumes "fetch env kind t s e u w = (r, w')"
  shows "\<forall>q. files w q \<noteq> None \<longrightarrow> files w' q \<noteq> None"
proof (rule fetch_rel[OF assms, where P = "\<lambda>w w'. \<forall>q. files w q \<noteq> None \<longrightarrow> files w' q \<noteq> None"])
  fix sub w r w'
  assume "resolve env kind t s e u sub w = (r, w')"
  then show "\<forall>q. files w q \<noteq> None \<longrightarrow> files w' q \<noteq> None"
    using resolve_dom by blast
qed auto

lemma changes_by_fetch_trans:
  assumes "changes_by_fetch kind t s e a b" "changes_by_fetch kind t s e b c"
  shows "changes_by_fetch kind t s e a c"
proof -
  from assms(1) obtain l1 where l1: "remote_log b = remote_log a @ l1"
    "\<forall>q. files b q \<noteq> files a q \<longrightarrow> (\<exists>sub \<in> set (sub_kinds kind).
        q = cache_file_of (t, kind, sub) \<and> key_request kind t s e sub \<in> set l1)"
    unfolding changes_by_fetch_def by blast
  from assms(2) obtain l2 where l2: "remote_log c = remote_log b @ l2"
    "\<forall>q. files c q \<noteq> files b q \<longrightarrow> (\<exists>sub \<in> set (sub_kinds kind).
        q = cache_file_of (t, kind, sub) \<and> key_request kind t s e sub \<in> set l2)"
    unfolding changes_by_fetch_def by blast
  have "remote_log c = remote_log a @ (l1 @ l2)" using l1(1) l2(1) by simp
  moreover have "\<forall>q. files c q \<noteq> files a q \<longrightarrow> (\<exists>sub \<in> set (sub_kinds kind).
        q = cache_file_of (t, kind, sub) \<and> key_request kind t s e sub \<in> set (l1 @ l2))"
  proof (intro allI impI)
    fix q assume "files c q \<noteq> files a q"
    then have "files b q \<noteq> files a q \<or> files c q \<noteq> files b q" by auto
    then show "\<exists>sub \<in> set (sub_kinds kind).
        q = cache_file_of (t, kind, sub) \<and> key_request kind t s e sub \<in> set (l1 @ l2)"
      using l1(2) l2(2) by fastforce
  qed
  ultimately show ?thesis unfolding changes_by_fetch_def by blast
qed

lemma fetch_changes:
  assumes "fetch env kind t s e u w = (r, w')"
  shows "changes_by_fetch kind t s e w w'"
proof (rule fetch_rel[OF assms, where P = "changes_by_fetch kind t s e"])
  fix sub w r w'
  assume sub: "sub \<in> set (sub_kinds kind)" and "resolve env kind t s e u sub w = (r, w')"
  from resolve_change[OF this(2)] sub show "changes_by_fetch kind t s e w w'"
    unfolding changes_by_fetch_def by blast
next
  fix w show "changes_by_fetch kind t s e w w"
    unfolding changes_by_fetch_def by simp
next
  fix a b c
  assume "changes_by_fetch kind t s e a b" "changes_by_fetch kind t s e b c"
  then show "changes_by_fetch kind t s e a c" by (rule changes_by_fetch_trans)
qed

lemma store_in_hit:
  assumes "files w (cache_file_of (t, kind, Some name)) = Some c"
  shows "store_in (\<lambda>name attr. resolve env kind t s e True (Some name)) name attr d w =
     (case decode env kind c of Inl err \<Rightarrow> Inl err | Inr y \<Rightarrow> Inr (AList.update name y d), w)"
  by (simp add: store_in_def resolve_hit[OF assms] split: sum.splits)

lemma for_items_all_hit:
  assumes "distinct (map fst items)" and "fst ` set items \<inter> fst ` set d = {}"
    and "\<forall>(n, a) \<in> set items. files w (cache_file_of (t, kind, Some n)) = Some (content n)"
  shows "for_items items (store_in (\<lambda>name attr. resolve env kind t s e True (Some name))) d w =
     (case decode_items (decode env kind) (map (\<lambda>(n, a). (n, content n)) items) of
        Inl err \<Rightarrow> Inl err
      | Inr ys \<Rightarrow> Inr (d @ ys), w)"
  using assms
proof (induction items arbitrary: d)
  case Nil
  then show ?case by simp
next
  case (Cons item items)
  obtain n a where item: "item = (n, a)" by (cases item)
  have f: "files w (cache_file_of (t, kind, Some n)) = Some (content n)"
    using Cons.prems(3) item by simp
  have fresh: "n \<notin> fst ` set d" using Cons.prems(2) item by auto
  show ?case
  proof (cases "decode env kind (content n)")
    case (Inl err)
    then show ?thesis using item by (simp add: store_in_hit[OF f])
  next
    case (Inr y)
    have d1: "AList.update n y d = d @ [(n, y)]" using fresh by (rule update_fresh)
    have "distinct (map fst items)" using Cons.prems(1) by simp
    moreover have "fst ` set items \<inter> fst ` set (d @ [(n, y)]) = {}"
      using Cons.prems(1,2) item by auto
    moreover have "\<forall>(n, a) \<in> set items. files w (cache_file_of (t, kind, Some n)) = Some (content n)"
      using Cons.prems(3) by simp
    ultimately have "for_items items (store_in (\<lambda>name attr. resolve env kind t s e True (Some name)))
        (d @ [(n, y)]) w =
      (case decode_items (decode env kind) (map (\<lambda>(n, a). (n, content n)) items) of
         Inl err \<Rightarrow> Inl err
       | Inr ys \<Rightarrow> Inr ((d @ [(n, y)]) @ ys), w)"
      by (rule Cons.IH)
    then show ?thesis using item Inr d1 by (simp add: store_in_hit[OF f] split: sum.splits)
  qed
qed

lemma decode_items_total:
  assumes "\<forall>(n, c) \<in> set xs. \<exists>y. load c = Inr y"
  shows "\<exists>ys. decode_items load xs = Inr ys"
  using assms by (induction xs) (auto split: sum.splits)

lemma reparse_columns_failed:
  "to_datetime env (columns df) = Inl err \<Longrightarrow> reparse_columns env df = df"
  by (simp add: reparse_columns_def)

lemma fetch_holders:
  "fetch env HoldersAndRecommendations ticker start end_date use_cache w =
     returning tables (get_holders_and_recommendations env ticker use_cache w)"
  by (simp add: fetch_def)

lemma map_of_tables:
  "map_of (map (\<lambda>(name, df). (name, Table df)) b) name = map_option Table (map_of b name)"
  by (induction b) auto

lemma map_of_own_key:
  assumes "distinct (map fst b)"
  shows "map (\<lambda>(n, x). (n, g (the (map_of b n)))) b = map (\<lambda>(n, x). (n, g x)) b"
  using assms by (induction b) (auto simp: rev_image_eqI)

lemma map_items_keys:
  "map (\<lambda>(n, a). (n, h n)) items = map (\<lambda>n. (n, h n)) (map fst items)"
  by (induction items) auto

lemma key_request_inj:
  assumes "sub \<in> set (sub_kinds kind)" "sub' \<in> set (sub_kinds kind)"
    and "key_request kind t s e sub = key_request kind t s e sub'"
  shows "sub = sub'"
  using assms by (cases kind) (auto simp: attr_of_def types_defs)

lemma quiet_for_trans: "quiet_for p rq a b \<Longrightarrow> quiet_for p rq b c \<Longrightarrow> quiet_for p rq a c"
  unfolding quiet_for_def by fastforce

lemma resolve_quiet:
  assumes sub: "sub \<in> set (sub_kinds kind)" and sub': "sub' \<in> set (sub_kinds kind)"
    and run: "resolve env kind t s e True sub' a = (r, b)"
  shows "quiet_for (cache_file_of (t, kind, sub)) (key_request kind t s e sub) a b"
  unfolding quiet_for_def
proof (intro impI conjI)
  assume ex: "files a (cache_file_of (t, kind, sub)) \<noteq> None"
  with resolve_dom[OF run] show "files b (cache_file_of (t, kind, sub)) \<noteq> None" by blast
  show "\<exists>lg. remote_log b = remote_log a @ lg \<and> key_request kind t s e sub \<notin> set lg"
  proof (cases "fs_exists a (cache_file_of (t, kind, sub'))")
    case True
    then obtain c where "files a (cache_file_of (t, kind, sub')) = Some c"
      by (auto simp: fs_exists_def)
    from resolve_hit[OF this, of env s e] run have "b = a" by simp
    then show ?thesis by simp
  next
    case False
    with ex have "sub' \<noteq> sub" by (auto simp: fs_exists_def)
    with key_request_inj[OF sub sub'] have ne: "key_request kind t s e sub \<noteq> key_request kind t s e sub'"
      by blast
    from False have "\<not> (True \<and> fs_exists a (cache_file_of (t, kind, sub')))" by simp
    from resolve_miss_log[OF this run] ne show ?thesis by simp
  qed
qed

lemma fetch_quiet:
  assumes sub: "sub \<in> set (sub_kinds kind)"
    and run: "fetch env kind t s e True w = (r, w')"
  shows "quiet_for (cache_file_of (t, kind, sub)) (key_request kind t s e sub) w w'"
proof (rule fetch_rel[OF run, where P = "quiet_for (cache_file_of (t, kind, sub)) (key_request kind t s e sub)"])
  fix sub' a r b
  assume "sub' \<in> set (sub_kinds kind)" "resolve env kind t s e True sub' a = (r, b)"
  then show "quiet_for (cache_file_of (t, kind, sub)) (key_request kind t s e sub) a b"
    using resolve_quiet[OF sub] by blast
next
  fix a show "quiet_for (cache_file_of (t, kind, sub)) (key_request kind t s e sub) a a"
    unfolding quiet_for_def by simp
next
  fix a b c
  assume "quiet_for (cache_file_of (t, kind, sub)) (key_request kind t s e sub) a b"
    "quiet_for (cache_file_of (t, kind, sub)) (key_request kind t s e sub) b c"
  then show "quiet_for (cache_file_of (t, kind, sub)) (key_request kind t s e sub) a c"
    by (rule quiet_for_trans)
qed

lemma second_fetch_whole:
  assumes first: "fetch env kind ticker start end_date use_cache w = (Inr v, w1)"
    and fetched: "\<forall>sub \<in> set (sub_kinds kind).
        \<not> (use_cache \<and> fs_exists w (cache_file_of (ticker, kind, sub)))"
    and full: "nonempty v"
  shows "fetch env kind ticker start2 end2 True w1 = (roundtrip env kind v, w1)"
proof -
  have written: "\<exists>x. component v sub = Some x \<and>
      files w1 (cache_file_of (ticker, kind, sub)) = Some (encode env kind x)"
    if sub: "sub \<in> set (sub_kinds kind)" and ne: "\<And>x. component v sub = Some x \<Longrightarrow> \<not> is_empty x"
    for sub
  proof -
    from fetch_key_cases[OF first sub] fetched sub obtain x where
      x: "component v sub = Some x"
        "if is_empty x
         then files w1 (cache_file_of (ticker, kind, sub)) = files w (cache_file_of (ticker, kind, sub))
         else faults w (cache_file_of (ticker, kind, sub)) (encode env kind x) = None \<and>
              files w1 (cache_file_of (ticker, kind, sub)) = Some (encode env kind x)"
      by (auto split: if_splits)
    with ne[OF x(1)] show ?thesis by auto
  qed
  show ?thesis
  proof (rule disjE[OF kind_cases[of kind]])
    assume k: "kind = PriceSeries \<or> kind = CompanyInfo"
    from first obtain x where v: "v = Single x"
      unfolding fetch_single[OF k] returning_Inr by blast
    have "None \<in> set (sub_kinds kind)" using k by auto
    from written[OF this] full v
    have "files w1 (cache_file_of (ticker, kind, None)) = Some (encode env kind x)" by simp
    from resolve_hit[OF this, of env start2 end2] show ?thesis
      unfolding fetch_single[OF k] v by (simp add: returning_def split: sum.splits)
  next
    assume k: "kind = AnnualStatements \<or> kind = QuarterlyStatements \<or> kind = HoldersAndRecommendations"
    from fetch_bundle_keys[OF k first] obtain b where
      v: "v = Bundle b" and keys: "map fst b = map fst (types_of kind)" by blast
    have db: "distinct (map fst b)" using keys bundle_names_distinct by simp
    define content where "content n = encode env kind (the (map_of b n))" for n
    have hit: "\<forall>(n, a) \<in> set (types_of kind).
        files w1 (cache_file_of (ticker, kind, Some n)) = Some (content n)"
    proof (clarify)
      fix n a assume mem: "(n, a) \<in> set (types_of kind)"
      then have sub: "Some n \<in> set (sub_kinds kind)" using sub_kinds_bundle[OF k] by blast
      have ne: "\<not> is_empty x" if "component v (Some n) = Some x" for x
      proof -
        from that v have "(n, x) \<in> set b" by (simp add: map_of_SomeD)
        with full v show ?thesis by (auto simp: list_all_iff)
      qed
      from written[OF sub ne] v show "files w1 (cache_file_of (ticker, kind, Some n)) = Some (content n)"
        by (auto simp: content_def)
    qed
    have "map (\<lambda>(n, a). (n, content n)) (types_of kind) = map (\<lambda>n. (n, content n)) (map fst b)"
      unfolding keys by (rule map_items_keys)
    also have "\<dots> = map (\<lambda>(n, x). (n, content n)) b"
      by (rule map_items_keys[symmetric])
    also have "\<dots> = map (\<lambda>(n, x). (n, encode env kind x)) b"
      unfolding content_def by (rule map_of_own_key[OF db])
    finally have texts: "map (\<lambda>(n, a). (n, content n)) (types_of kind) =
        map (\<lambda>(n, x). (n, encode env kind x)) b" .
    have "for_items (types_of kind)
            (store_in (\<lambda>name attr. resolve env kind ticker start2 end2 True (Some name))) [] w1 =
          (case decode_items (decode env kind) (map (\<lambda>(n, x). (n, encode env kind x)) b) of
             Inl err \<Rightarrow> Inl err
           | Inr ys \<Rightarrow> Inr ([] @ ys), w1)"
      using for_items_all_hit[OF bundle_names_distinct _ hit, of "[]" env start2 end2]
      unfolding texts by simp
    then show ?thesis
      unfolding fetch_bundle[OF k] v by (simp add: returning_def split: sum.splits)
  qed
qed
lemma resolve_returns:
  assumes "resolvable env kind t s e u w sub"
  shows "\<exists>x w'. resolve env kind t s e u sub w = (Inr x, w')"
proof (cases "u \<and> fs_exists w (cache_file_of (t, kind, sub))")
  case True
  with assms obtain c y where c: "files w (cache_file_of (t, kind, sub)) = Some c"
    "decode env kind c = Inr y"
    by (auto simp: resolvable_def)
  from True have u by simp
  then show ?thesis using resolve_hit[OF c(1), of env s e] c(2) by simp
next
  case False
  with assms obtain x where x: "ask env kind t s e sub (remote_log w) = Inr x"
    and f: "\<forall>c. faults w (cache_file_of (t, kind, sub)) c = None"
    by (auto simp: resolvable_def)
  show ?thesis unfolding resolve_miss[OF False] using x f by simp
qed

lemma resolvable_cong:
  assumes "files w' (cache_file_of (t, kind, sub)) = files w (cache_file_of (t, kind, sub))"
    and "faults w' = faults w"
  shows "resolvable env kind t s e u w' sub = resolvable env kind t s e u w sub"
  using assms by (auto simp: resolvable_def fs_exists_def)

lemma for_items_returns:
  assumes "distinct (map ((\<lambda>name. cache_file_of (t, kind, Some name)) \<circ> fst) items)"
    and "\<forall>(n, a) \<in> set items. resolvable env kind t s e u w (Some n)"
  shows "\<exists>d' w'. for_items items
           (store_in (\<lambda>name attr. resolve env kind t s e u (Some name))) d w = (Inr d', w')"
  using assms
proof (induction items arbitrary: d w)
  case Nil
  then show ?case by simp
next
  case (Cons item items)
  obtain n a where item: "item = (n, a)" by (cases item)
  from Cons.prems(2) item have "resolvable env kind t s e u w (Some n)" by simp
  from resolve_returns[OF this] obtain x w1 where
    r: "resolve env kind t s e u (Some n) w = (Inr x, w1)" by blast
  from resolve_step_frame[of t kind env s e u] r
  have fr: "faults w1 = faults w"
    "\<forall>q. q \<noteq> cache_file_of (t, kind, Some n) \<longrightarrow> files w1 q = files w q"
    unfolding step_frame_def by blast+
  have dist: "distinct (map ((\<lambda>name. cache_file_of (t, kind, Some name)) \<circ> fst) items)"
    and fresh: "cache_file_of (t, kind, Some n) \<notin> (\<lambda>name. cache_file_of (t, kind, Some name)) ` fst ` set items"
    using Cons.prems(1) item by (auto simp: image_image comp_def)
  have "\<forall>(m, b) \<in> set items. resolvable env kind t s e u w1 (Some m)"
  proof (clarify)
    fix m b assume mem: "(m, b) \<in> set items"
    then have "cache_file_of (t, kind, Some m) \<in> (\<lambda>name. cache_file_of (t, kind, Some name)) ` fst ` set items"
      by (metis fst_conv image_eqI)
    with fresh have "cache_file_of (t, kind, Some m) \<noteq> cache_file_of (t, kind, Some n)" by metis
    with fr have "files w1 (cache_file_of (t, kind, Some m)) = files w (cache_file_of (t, kind, Some m))"
      by simp
    then have "resolvable env kind t s e u w1 (Some m) = resolvable env kind t s e u w (Some m)"
      using fr(1) by (rule resolvable_cong)
    moreover have "resolvable env kind t s e u w (Some m)"
      using Cons.prems(2) mem by auto
    ultimately show "resolvable env kind t s e u w1 (Some m)" by simp
  qed
  from Cons.IH[OF dist this] obtain d' w' where
    "for_items items (store_in (\<lambda>name attr. resolve env kind t s e u (Some name)))
       (AList.update n x d) w1 = (Inr d', w')" by blast
  moreover have "store_in (\<lambda>name attr. resolve env kind t s e u (Some name)) n a d w =
      (Inr (AList.update n x d), w1)"
    using r by (simp add: store_in_def)
  ultimately show ?case using item by simp
qed

lemma fetch_returns:
  assumes "\<forall>sub \<in> set (sub_kinds kind). resolvable env kind t s e u w sub"
  shows "\<exists>v w'. fetch env kind t s e u w = (Inr v, w')"
proof (rule disjE[OF kind_cases[of kind]])
  assume k: "kind = PriceSeries \<or> kind = CompanyInfo"
  then have "None \<in> set (sub_kinds kind)" by auto
  with assms have "resolvable env kind t s e u w None" by blast
  from resolve_returns[OF this] show ?thesis
    unfolding fetch_single[OF k] by (auto simp: returning_def)
next
  assume k: "kind = AnnualStatements \<or> kind = QuarterlyStatements \<or> kind = HoldersAndRecommendations"
  have "\<forall>(n, a) \<in> set (types_of kind). resolvable env kind t s e u w (Some n)"
    using assms sub_kinds_bundle[OF k] by blast
  from for_items_returns[OF bundle_paths_distinct this, of "[]"] show ?thesis
    unfolding fetch_bundle[OF k] by (auto simp: returning_def)
qed




section \<open>The stub at work\<close>

text \<open>What the functions return on the stub, computed from their definitions.\<close>

lemma acme_first_run:
  "fetch stub_env PriceSeries ''ACME'' ''2023-01-01'' None True fresh_world =
     (Inr (Single (Table acme_prices)), acme_cached)"
  by (simp add: model_defs stub_defs cache_file_defs acme_cached_def Let_def)

lemma acme_cached_run:
  "fetch stub_env PriceSeries ''ACME'' ''2024-01-01'' None True acme_cached =
     (Inr (Single (Table acme_prices)), acme_cached)"
  by (simp add: model_defs stub_defs cache_file_defs acme_cached_def Let_def)




lemma readonly_run:
  "fetch stub_env PriceSeries ''ACME'' ''2023-01-01'' None True readonly_world =
     (Inl OSError, readonly_world\<lparr>remote_log := [Download ''ACME'' ''2023-01-01'' None]\<rparr>)"
  by (simp add: model_defs stub_defs cache_file_defs Let_def)

lemma none_run:
  "get_holders_and_recommendations stub_env ''NONE'' True fresh_world =
     (Inr [(''institutional_holders'', DataFrame), (''major_holders'', DataFrame),
           (''recommendations'', DataFrame)], none_asked)"
  by (simp add: model_defs stub_defs types_defs cache_file_defs none_asked_def Let_def)



lemma broken_disk_run:
  "fetch stub_env PriceSeries ''ACME'' ''2023-01-01'' None True broken_disk_world =
     (Inl OSError,
      \<lparr>files = [''ACME.csv'' \<mapsto> ''pri''],
       faults = (\<lambda>p c. Some (WriteFails OSError (take 3 c))),
       remote_log = [Download ''ACME'' ''2023-01-01'' None]\<rparr>)"
  by (simp add: model_defs stub_defs cache_file_defs Let_def)

section \<open>The second fetch reads the cache\<close>

text \<open>
  C1. Take a call that returned a value. If no key of it was a cache hit (every
  sub-kind went to the provider) and the value has no empty part, a call for the same
  identifier and kind with \<^verbatim>\<open>use_cache=True\<close> made in the world the first one left
  returns the first value taken through the adapter (encoded as it was written,
  decoded as a cache hit decodes; a decoding error of the adapter is the outcome
  where there is one) and leaves the world exactly as it found it: no request is
  added to the provider's log and no file changes. Key by key, also when other
  sub-kinds of a bundle came back empty: for a key that went to the provider and came
  back non-empty, the second call sends no request for that key, leaves the key's
  file holding the encoded record, and, when it returns, has the decoded file as the
  key's component. For the price series this holds whatever date bounds the second
  call names, as the key has no dates.
\<close>

theorem second_fetch_reads_cache:
  assumes first: "fetch env kind ticker start end_date use_cache w = (Inr v, w1)"
  shows "((\<forall>sub \<in> set (sub_kinds kind).
             \<not> (use_cache \<and> fs_exists w (cache_file_of (ticker, kind, sub)))) \<and> nonempty v \<longrightarrow>
          fetch env kind ticker start2 end2 True w1 = (roundtrip env kind v, w1) \<and>
          remote_log (snd (fetch env kind ticker start2 end2 True w1)) = remote_log w1)
       \<and> (\<forall>sub x r2 w2.
             sub \<in> set (sub_kinds kind) \<and>
             \<not> (use_cache \<and> fs_exists w (cache_file_of (ticker, kind, sub))) \<and>
             component v sub = Some x \<and> \<not> is_empty x \<and>
             fetch env kind ticker start2 end2 True w1 = (r2, w2) \<longrightarrow>
             key_request kind ticker start2 end2 sub
               \<notin> set (drop (length (remote_log w1)) (remote_log w2)) \<and>
             files w2 (cache_file_of (ticker, kind, sub)) = Some (encode env kind x) \<and>
             (\<forall>v2. r2 = Inr v2 \<longrightarrow>
                (\<exists>y. component v2 sub = Some y \<and> decode env kind (encode env kind x) = Inr y)))"
proof (intro conjI impI allI)
  assume a: "(\<forall>sub \<in> set (sub_kinds kind).
             \<not> (use_cache \<and> fs_exists w (cache_file_of (ticker, kind, sub)))) \<and> nonempty v"
  then have w: "fetch env kind ticker start2 end2 True w1 = (roundtrip env kind v, w1)"
    using second_fetch_whole[OF first] by blast
  then show "fetch env kind ticker start2 end2 True w1 = (roundtrip env kind v, w1)" .
  from w show "remote_log (snd (fetch env kind ticker start2 end2 True w1)) = remote_log w1"
    by simp
next
  fix sub x r2 w2
  assume a: "sub \<in> set (sub_kinds kind) \<and>
             \<not> (use_cache \<and> fs_exists w (cache_file_of (ticker, kind, sub))) \<and>
             component v sub = Some x \<and> \<not> is_empty x \<and>
             fetch env kind ticker start2 end2 True w1 = (r2, w2)"
  let ?p = "cache_file_of (ticker, kind, sub)"
  from a have sub: "sub \<in> set (sub_kinds kind)"
    and run2: "fetch env kind ticker start2 end2 True w1 = (r2, w2)" by simp_all
  from fetch_key_cases[OF first sub] a have f1: "files w1 ?p = Some (encode env kind x)"
    by (auto split: if_splits)
  from fetch_quiet[OF sub run2] f1
  show "key_request kind ticker start2 end2 sub \<notin> set (drop (length (remote_log w1)) (remote_log w2))"
    unfolding quiet_for_def by auto
  from fetch_keeps[OF run2] f1 show f2: "files w2 ?p = Some (encode env kind x)" by blast
  show "\<exists>y. component v2 sub = Some y \<and> decode env kind (encode env kind x) = Inr y"
    if rv: "r2 = Inr v2" for v2
    using fetch_key_cases[OF run2[unfolded rv] sub] f1 by (auto simp: fs_exists_def)
qed

text \<open>
  The theorem on the stub: \<^verbatim>\<open>ACME\<close> with no prior cache, two rows from the provider,
  then the same two rows from the file and still one request in the log.
\<close>

theorem second_fetch_reads_cache_witness:
  "fetch stub_env PriceSeries ''ACME'' ''2023-01-01'' None True fresh_world =
     (Inr (Single (Table acme_prices)), acme_cached)
   \<and> sub_kinds PriceSeries = [None]
   \<and> \<not> (True \<and> fs_exists fresh_world (cache_file_of (''ACME'', PriceSeries, None)))
   \<and> nonempty (Single (Table acme_prices) :: (string, string) fetched)
   \<and> component (Single (Table acme_prices) :: (string, string) fetched) None = Some (Table acme_prices)
   \<and> \<not> is_empty (Table acme_prices :: (string, string) payload)
   \<and> roundtrip stub_env PriceSeries (Single (Table acme_prices)) = Inr (Single (Table acme_prices))
   \<and> fetch stub_env PriceSeries ''ACME'' ''2023-01-01'' None True acme_cached =
       (Inr (Single (Table acme_prices)), acme_cached)
   \<and> remote_log (snd (fetch stub_env PriceSeries ''ACME'' ''2023-01-01'' None True acme_cached)) =
       [Download ''ACME'' ''2023-01-01'' None]
   \<and> key_request PriceSeries ''ACME'' ''2023-01-01'' None None
       \<notin> set (drop (length (remote_log acme_cached)) (remote_log acme_cached))
   \<and> files acme_cached (cache_file_of (''ACME'', PriceSeries, None)) =
       Some (encode stub_env PriceSeries (Table acme_prices))"
proof -
  have subs: "sub_kinds PriceSeries = [None]" by simp
  have sub: "None \<in> set (sub_kinds PriceSeries)" by simp
  have miss: "\<not> (True \<and> fs_exists fresh_world (cache_file_of (''ACME'', PriceSeries, None)))"
    by (simp add: fs_exists_def fresh_world_def)
  have fetched: "\<forall>sub \<in> set (sub_kinds PriceSeries).
      \<not> (True \<and> fs_exists fresh_world (cache_file_of (''ACME'', PriceSeries, sub)))"
    using miss by simp
  have ne: "\<not> is_empty (Table acme_prices :: (string, string) payload)"
    by (simp add: df_empty_def acme_prices_def)
  have full: "nonempty (Single (Table acme_prices) :: (string, string) fetched)"
    using ne by simp
  have comp: "component (Single (Table acme_prices) :: (string, string) fetched) None = Some (Table acme_prices)"
    by simp
  have rt: "roundtrip stub_env PriceSeries (Single (Table acme_prices)) = Inr (Single (Table acme_prices))"
    by (simp add: stub_env_def as_table_def)
  have lg: "remote_log acme_cached = [Download ''ACME'' ''2023-01-01'' None]"
    by (simp add: acme_cached_def)
  note main = second_fetch_reads_cache[OF acme_first_run, of "''2023-01-01''" None]
  from main fetched full have again: "fetch stub_env PriceSeries ''ACME'' ''2023-01-01'' None True acme_cached =
       (Inr (Single (Table acme_prices)), acme_cached)"
    unfolding rt by blast
  from main fetched full have quiet:
    "remote_log (snd (fetch stub_env PriceSeries ''ACME'' ''2023-01-01'' None True acme_cached)) =
       [Download ''ACME'' ''2023-01-01'' None]"
    unfolding lg by blast
  from main sub miss comp ne again have key:
    "key_request PriceSeries ''ACME'' ''2023-01-01'' None None
       \<notin> set (drop (length (remote_log acme_cached)) (remote_log acme_cached)) \<and>
     files acme_cached (cache_file_of (''ACME'', PriceSeries, None)) =
       Some (encode stub_env PriceSeries (Table acme_prices))"
    by blast
  from acme_first_run subs miss full comp ne rt again quiet key show ?thesis by blast
qed

section \<open>Empty answers are not cached\<close>



section \<open>Cache entries are kept\<close>

text \<open>
  C3, as the code has it. No call deletes a cache file. A call with \<^verbatim>\<open>use_cache\<close>
  leaves every existing file as it is, so under \<^verbatim>\<open>use_cache\<close> a file only changes
  from absent to written. Whatever file a call changes is the cache file of one of
  its own keys, and the request for that key was sent to the provider during the call.
\<close>

theorem cache_entry_kept:
  assumes run: "fetch env kind ticker start end_date use_cache w = (r, w')"
  shows "(files w q \<noteq> None \<longrightarrow> files w' q \<noteq> None)
       \<and> (use_cache \<longrightarrow> files w q \<noteq> None \<longrightarrow> files w' q = files w q)
       \<and> (files w' q \<noteq> files w q \<longrightarrow>
            (\<exists>sub \<in> set (sub_kinds kind).
               q = cache_file_of (ticker, kind, sub) \<and>
               key_request kind ticker start end_date sub
                 \<in> set (drop (length (remote_log w)) (remote_log w'))))"
proof (intro conjI impI)
  assume "files w q \<noteq> None"
  with fetch_dom[OF run] show "files w' q \<noteq> None" by blast
next
  assume u: use_cache and "files w q \<noteq> None"
  then obtain c where "files w q = Some c" by auto
  with fetch_keeps[OF run[unfolded eqTrueI[OF u]]] show "files w' q = files w q" by simp
next
  assume ch: "files w' q \<noteq> files w q"
  from fetch_changes[OF run] obtain lg where
    "remote_log w' = remote_log w @ lg"
    "\<forall>q. files w' q \<noteq> files w q \<longrightarrow> (\<exists>sub \<in> set (sub_kinds kind).
        q = cache_file_of (ticker, kind, sub) \<and> key_request kind ticker start end_date sub \<in> set lg)"
    unfolding changes_by_fetch_def by blast
  with ch show "\<exists>sub \<in> set (sub_kinds kind).
               q = cache_file_of (ticker, kind, sub) \<and>
               key_request kind ticker start end_date sub
                 \<in> set (drop (length (remote_log w)) (remote_log w'))"
    by simp
qed

text \<open>
  The theorem on the stub: the first call writes \<^verbatim>\<open>ACME.csv\<close> after a download, the
  second finds it and leaves it.
\<close>

theorem cache_entry_kept_witness:
  "fetch stub_env PriceSeries ''ACME'' ''2023-01-01'' None True fresh_world =
     (Inr (Single (Table acme_prices)), acme_cached)
   \<and> files acme_cached ''ACME.csv'' \<noteq> files fresh_world ''ACME.csv''
   \<and> None \<in> set (sub_kinds PriceSeries)
   \<and> ''ACME.csv'' = cache_file_of (''ACME'', PriceSeries, None)
   \<and> key_request PriceSeries ''ACME'' ''2023-01-01'' None None
        \<in> set (drop (length (remote_log fresh_world)) (remote_log acme_cached))
   \<and> fetch stub_env PriceSeries ''ACME'' ''2024-01-01'' None True acme_cached =
     (Inr (Single (Table acme_prices)), acme_cached)
   \<and> files acme_cached ''ACME.csv'' \<noteq> None"
proof -
  have ch: "files acme_cached ''ACME.csv'' \<noteq> files fresh_world ''ACME.csv''"
    by (simp add: acme_cached_def fresh_world_def)
  from cache_entry_kept[OF acme_first_run, of "''ACME.csv''"] ch
  have "key_request PriceSeries ''ACME'' ''2023-01-01'' None None
        \<in> set (drop (length (remote_log fresh_world)) (remote_log acme_cached))"
    by auto
  moreover from cache_entry_kept[OF acme_cached_run, of "''ACME.csv''"]
  have "files acme_cached ''ACME.csv'' \<noteq> None"
    by (simp add: acme_cached_def)
  ultimately show ?thesis
    using acme_first_run acme_cached_run ch by (simp add: cache_file_defs)
qed

text \<open>
  C3 as stated fails: \<^verbatim>\<open>use_cache=False\<close> skips the cache test, so a later call
  fetches again and writes over the entry the first call made.
\<close>

theorem refetch_overwrites_entry:
  "get_stock_data stub_env ''ACME'' ''2023-01-01'' None True fresh_world = (Inr acme_prices, acme_cached)
   \<and> files acme_cached (stock_cache_file ''ACME'') = Some ''prices''
   \<and> files (snd (get_stock_data stub_env ''ACME'' ''2024-01-01'' None False acme_cached))
        (stock_cache_file ''ACME'') = Some ''prices2024''"
  by (simp add: model_defs stub_defs cache_file_defs acme_cached_def Let_def)

section \<open>Distinct keys and distinct files\<close>

text \<open>
  C4, as the code has it. The file name is the identifier followed by a suffix that
  names the kind and sub-kind, and nothing keeps the identifier from ending in such a
  suffix itself. Two keys of one identifier always get different file names; keys of
  different identifiers get different file names when the identifiers contain no
  underscore. The path separator is excluded as well: the file name is joined to the
  cache directory by \<^verbatim>\<open>pathlib\<close>, and it is one path component only when the
  identifier has no separator.
\<close>

theorem cache_file_of_distinct:
  assumes "valid_key (t1, kind1, sub1)" and "valid_key (t2, kind2, sub2)"
    and "(t1, kind1, sub1) \<noteq> (t2, kind2, sub2)"
    and "t1 = t2 \<or> (\<forall>c \<in> set (t1 @ t2). c \<noteq> CHR ''_'' \<and> c \<noteq> CHR ''/'')"
  shows "cache_file_of (t1, kind1, sub1) \<noteq> cache_file_of (t2, kind2, sub2)"
proof
  assume eq: "cache_file_of (t1, kind1, sub1) = cache_file_of (t2, kind2, sub2)"
  from assms(1,2) have v: "sub1 \<in> set (sub_kinds kind1)" "sub2 \<in> set (sub_kinds kind2)"
    by (simp_all add: valid_key_def)
  from eq have e: "t1 @ key_suffix kind1 sub1 = t2 @ key_suffix kind2 sub2"
    by (simp add: cache_file_of_suffix)
  have t: "t1 = t2"
  proof (rule disjE[OF assms(4)])
    assume "\<forall>c \<in> set (t1 @ t2). c \<noteq> CHR ''_'' \<and> c \<noteq> CHR ''/''"
    then have "CHR ''_'' \<notin> set t1" "CHR ''_'' \<notin> set t2" by auto
    then show "t1 = t2"
      using prefix_unique[OF _ _ valid_suffix_cases[OF v(1)] valid_suffix_cases[OF v(2)] e] by simp
  qed simp
  with e have "key_suffix kind1 sub1 = key_suffix kind2 sub2" by simp
  with key_suffix_inj[OF v] t assms(3) show False by simp
qed

text \<open>The theorem at two identifiers of the valuation workflow.\<close>

theorem cache_file_of_distinct_witness:
  "valid_key (''BMW.DE'', PriceSeries, None) \<and> valid_key (''^TNX'', CompanyInfo, None)
   \<and> cache_file_of (''BMW.DE'', PriceSeries, None) \<noteq> cache_file_of (''^TNX'', CompanyInfo, None)"
  using cache_file_of_distinct[of "''BMW.DE''" PriceSeries None "''^TNX''" CompanyInfo None]
  by (simp add: valid_key_def)

text \<open>
  C4 as stated fails: the annual income statement of the identifier \<^verbatim>\<open>A_quarterly\<close>
  and the quarterly income statement of the identifier \<^verbatim>\<open>A\<close> are two valid keys with
  the file name \<^verbatim>\<open>A_quarterly_income_stmt.csv\<close>.
\<close>

theorem cache_file_collision:
  "valid_key (''A_quarterly'', AnnualStatements, Some ''income_stmt'')
   \<and> valid_key (''A'', QuarterlyStatements, Some ''income_stmt'')
   \<and> (''A_quarterly'', AnnualStatements, Some ''income_stmt'')
       \<noteq> (''A'', QuarterlyStatements, Some ''income_stmt'')
   \<and> cache_file_of (''A_quarterly'', AnnualStatements, Some ''income_stmt'')
       = cache_file_of (''A'', QuarterlyStatements, Some ''income_stmt'')"
  by (simp add: valid_key_def types_defs cache_file_defs)

section \<open>Partial bundles\<close>



section \<open>The round trip through an adapter\<close>



section \<open>Statement headers that are not dates\<close>

text \<open>
  C7. A cached statement file whose text \<^verbatim>\<open>read_csv\<close> accepts and whose column headers
  \<^verbatim>\<open>to_datetime\<close> rejects: the loop body of either statement function returns
  normally, with the table as \<^verbatim>\<open>read_csv\<close> gave it, headers included, stored under
  the sub-kind and the world untouched. Whenever the whole call returns, that table is
  the component of the sub-kind, and the file is never touched. When every sub-kind
  has a file that \<^verbatim>\<open>read_csv\<close> accepts, the whole call returns a value, whether or
  not any header parses.
\<close>

theorem header_reparse_failure_kept:
  assumes stmt: "kind = AnnualStatements \<or> kind = QuarterlyStatements"
    and item: "(name, attr) \<in> set (types_of kind)"
    and cached: "files w (cache_file_of (ticker, kind, Some name)) = Some text"
    and parsed: "read_csv env (Some 0) False text = Inr df"
    and bad: "to_datetime env (columns df) = Inl err"
  shows "(kind = AnnualStatements \<longrightarrow>
            financials_body env ticker True name attr d w = (Inr (AList.update name df d), w))
       \<and> (kind = QuarterlyStatements \<longrightarrow>
            quarterly_body env ticker True name attr d w = (Inr (AList.update name df d), w))
       \<and> (\<forall>r w'. fetch env kind ticker start end_date True w = (r, w') \<longrightarrow>
            files w' (cache_file_of (ticker, kind, Some name)) = Some text \<and>
            (\<forall>v. r = Inr v \<longrightarrow> component v (Some name) = Some (Table df)))
       \<and> ((\<forall>(n, a) \<in> set (types_of kind). \<exists>c f.
              files w (cache_file_of (ticker, kind, Some n)) = Some c \<and>
              read_csv env (Some 0) False c = Inr f) \<longrightarrow>
            (\<exists>v. fetch env kind ticker start end_date True w = (Inr v, w)))"
proof (intro conjI impI allI)
  assume "kind = AnnualStatements"
  with cached show "financials_body env ticker True name attr d w = (Inr (AList.update name df d), w)"
    by (simp add: financials_body_def fs_exists_def fs_read_def parsed
        reparse_columns_failed[OF bad])
next
  assume "kind = QuarterlyStatements"
  with cached show "quarterly_body env ticker True name attr d w = (Inr (AList.update name df d), w)"
    by (simp add: quarterly_body_def fs_exists_def fs_read_def parsed
        reparse_columns_failed[OF bad])
next
  fix r w'
  assume run: "fetch env kind ticker start end_date True w = (r, w')"
  from fetch_keeps[OF run] cached
  show "files w' (cache_file_of (ticker, kind, Some name)) = Some text" by blast
next
  fix r w' v
  assume run: "fetch env kind ticker start end_date True w = (r, w')" and rv: "r = Inr v"
  have k: "kind = AnnualStatements \<or> kind = QuarterlyStatements \<or> kind = HoldersAndRecommendations"
    using stmt by auto
  have sub: "Some name \<in> set (sub_kinds kind)"
    using item sub_kinds_bundle[OF k] by blast
  have dec: "decode env kind text = Inr (Table df)"
    using stmt by (auto simp: load_statement_def as_table_def parsed reparse_columns_failed[OF bad])
  from fetch_key_cases[OF run[unfolded rv] sub] cached dec
  show "component v (Some name) = Some (Table df)"
    by (auto simp: fs_exists_def)
next
  assume all: "\<forall>(n, a) \<in> set (types_of kind). \<exists>c f.
      files w (cache_file_of (ticker, kind, Some n)) = Some c \<and> read_csv env (Some 0) False c = Inr f"
  have k: "kind = AnnualStatements \<or> kind = QuarterlyStatements \<or> kind = HoldersAndRecommendations"
    using stmt by auto
  define content where "content n = the (files w (cache_file_of (ticker, kind, Some n)))" for n
  have hit: "\<forall>(n, a) \<in> set (types_of kind).
      files w (cache_file_of (ticker, kind, Some n)) = Some (content n)"
    using all by (auto simp: content_def)
  have "\<forall>(n, c) \<in> set (map (\<lambda>(n, a). (n, content n)) (types_of kind)). \<exists>y. decode env kind c = Inr y"
    using all stmt by (auto simp: content_def load_statement_def as_table_def split: sum.splits)
  then obtain ys where
    ys: "decode_items (decode env kind) (map (\<lambda>(n, a). (n, content n)) (types_of kind)) = Inr ys"
    using decode_items_total by blast
  have "for_items (types_of kind)
          (store_in (\<lambda>name attr. resolve env kind ticker start end_date True (Some name))) [] w =
        (Inr ys, w)"
    using for_items_all_hit[OF bundle_names_distinct _ hit, of "[]" env start end_date] ys by simp
  then show "\<exists>v. fetch env kind ticker start end_date True w = (Inr v, w)"
    unfolding fetch_bundle[OF k] by (simp add: returning_def)
qed

text \<open>
  The theorem on the stub, whose \<^verbatim>\<open>to_datetime\<close> rejects every header, with all three
  statements cached.
\<close>

theorem header_reparse_failure_kept_witness:
  "(''balance_sheet'', ''balance_sheet'') \<in> set (types_of AnnualStatements)
   \<and> files acme_statements_cached (cache_file_of (''ACME'', AnnualStatements, Some ''balance_sheet'')) = Some ''table''
   \<and> read_csv stub_env (Some 0) False ''table'' = Inr acme_statement_read
   \<and> to_datetime stub_env (columns acme_statement_read) = Inl ValueError
   \<and> types_of AnnualStatements =
        [(''income_stmt'', ''financials''), (''balance_sheet'', ''balance_sheet''),
         (''cashflow'', ''cashflow'')]
   \<and> files acme_statements_cached (cache_file_of (''ACME'', AnnualStatements, Some ''income_stmt'')) = Some ''table''
   \<and> files acme_statements_cached (cache_file_of (''ACME'', AnnualStatements, Some ''cashflow'')) = Some ''table''
   \<and> financials_body stub_env ''ACME'' True ''balance_sheet'' ''balance_sheet'' [] acme_statements_cached =
        (Inr [(''balance_sheet'', acme_statement_read)], acme_statements_cached)
   \<and> (\<exists>v. fetch stub_env AnnualStatements ''ACME'' ''2023-01-01'' None True acme_statements_cached =
          (Inr v, acme_statements_cached))"
proof -
  have k: "AnnualStatements = AnnualStatements \<or> AnnualStatements = QuarterlyStatements" by simp
  have item: "(''balance_sheet'', ''balance_sheet'') \<in> set (types_of AnnualStatements)"
    by (simp add: types_defs)
  have cached: "files acme_statements_cached
      (cache_file_of (''ACME'', AnnualStatements, Some ''balance_sheet'')) = Some ''table''"
    by (simp add: acme_statements_cached_def cache_file_defs)
  have parsed: "read_csv stub_env (Some 0) False ''table'' = Inr acme_statement_read"
    by (simp add: stub_env_def)
  have bad: "to_datetime stub_env (columns acme_statement_read) = Inl ValueError"
    by (simp add: stub_env_def acme_statement_read_def)
  have all: "\<forall>(n, a) \<in> set (types_of AnnualStatements). \<exists>c f.
          files acme_statements_cached (cache_file_of (''ACME'', AnnualStatements, Some n)) = Some c \<and>
          read_csv stub_env (Some 0) False c = Inr f"
    by (simp add: types_defs acme_statements_cached_def cache_file_defs stub_env_def)
  note main = header_reparse_failure_kept[OF k item cached parsed bad,
      of "[]" "''2023-01-01''" None]
  from main have "financials_body stub_env ''ACME'' True ''balance_sheet'' ''balance_sheet'' []
      acme_statements_cached = (Inr [(''balance_sheet'', acme_statement_read)], acme_statements_cached)"
    by simp
  moreover from main all
  have "\<exists>v. fetch stub_env AnnualStatements ''ACME'' ''2023-01-01'' None True acme_statements_cached =
          (Inr v, acme_statements_cached)"
    by blast
  moreover have "types_of AnnualStatements =
        [(''income_stmt'', ''financials''), (''balance_sheet'', ''balance_sheet''),
         (''cashflow'', ''cashflow'')]"
    by (simp add: types_defs)
  moreover have
    "files acme_statements_cached (cache_file_of (''ACME'', AnnualStatements, Some ''income_stmt'')) = Some ''table''"
    "files acme_statements_cached (cache_file_of (''ACME'', AnnualStatements, Some ''cashflow'')) = Some ''table''"
    by (simp_all add: acme_statements_cached_def cache_file_defs)
  ultimately show ?thesis using item cached parsed bad by blast
qed

section \<open>A failing cache write\<close>

text \<open>
  C8, as the code has it. None of the functions guards its cache write, so an
  exception raised by the write leaves the function in place of the record. Take a
  key for which the call goes to the provider, and a provider that answers that key
  with a non-empty record. If the call returns a value, the write of the key's file
  went through: the component of the key is the provider's answer and the file holds
  its encoding. If the write of whatever the provider answers is at fault, the call
  raises. If every key of the call is resolvable, the call returns. For the price
  series and the metadata the outcome is read off the fault: without one the fetched
  record is returned and stored; when the file cannot be opened the error is raised
  and the file is untouched; when the write breaks off the error is raised and the
  file holds what was written until then.
\<close>

theorem cache_write_failure_propagates:
  assumes run: "fetch env kind ticker start end_date use_cache w = (r, w')"
    and sub: "sub \<in> set (sub_kinds kind)"
    and miss: "\<not> (use_cache \<and> fs_exists w (cache_file_of (ticker, kind, sub)))"
    and answer: "\<forall>lg. \<exists>x. ask env kind ticker start end_date sub lg = Inr x \<and> \<not> is_empty x"
  shows "(\<forall>v. r = Inr v \<longrightarrow>
            (\<exists>x lg. component v sub = Some x \<and>
               ask env kind ticker start end_date sub (remote_log w @ lg) = Inr x \<and>
               faults w (cache_file_of (ticker, kind, sub)) (encode env kind x) = None \<and>
               files w' (cache_file_of (ticker, kind, sub)) = Some (encode env kind x)))
       \<and> ((\<forall>lg x. ask env kind ticker start end_date sub (remote_log w @ lg) = Inr x \<longrightarrow>
              faults w (cache_file_of (ticker, kind, sub)) (encode env kind x) \<noteq> None) \<longrightarrow>
            (\<exists>err. r = Inl err))
       \<and> ((\<forall>sub' \<in> set (sub_kinds kind).
              resolvable env kind ticker start end_date use_cache w sub') \<longrightarrow>
            (\<exists>v. r = Inr v))
       \<and> (types_of kind = [] \<longrightarrow>
            (\<exists>x. ask env kind ticker start end_date sub (remote_log w) = Inr x \<and> \<not> is_empty x \<and>
               (case faults w (cache_file_of (ticker, kind, sub)) (encode env kind x) of
                  None \<Rightarrow>
                    r = Inr (Single x) \<and>
                    files w' (cache_file_of (ticker, kind, sub)) = Some (encode env kind x)
                | Some (OpenFails err) \<Rightarrow>
                    r = Inl err \<and>
                    files w' (cache_file_of (ticker, kind, sub)) =
                      files w (cache_file_of (ticker, kind, sub))
                | Some (WriteFails err left) \<Rightarrow>
                    r = Inl err \<and> files w' (cache_file_of (ticker, kind, sub)) = Some left)))"
proof -
  let ?p = "cache_file_of (ticker, kind, sub)"
  have ret: "\<exists>x lg. component v sub = Some x \<and>
               ask env kind ticker start end_date sub (remote_log w @ lg) = Inr x \<and>
               faults w ?p (encode env kind x) = None \<and>
               files w' ?p = Some (encode env kind x)" if rv: "r = Inr v" for v
  proof -
    from fetch_key_cases[OF run[unfolded rv] sub] miss obtain x lg where
      x: "component v sub = Some x" "ask env kind ticker start end_date sub (remote_log w @ lg) = Inr x"
         "if is_empty x then files w' ?p = files w ?p
          else faults w ?p (encode env kind x) = None \<and> files w' ?p = Some (encode env kind x)"
      by auto
    from answer x(2) have "\<not> is_empty x" by (metis sum.inject(2))
    with x show ?thesis by auto
  qed
  have fail: "\<exists>err. r = Inl err"
    if nw: "\<forall>lg x. ask env kind ticker start end_date sub (remote_log w @ lg) = Inr x \<longrightarrow>
              faults w ?p (encode env kind x) \<noteq> None"
  proof (cases r)
    case (Inl err)
    then show ?thesis by simp
  next
    case (Inr v)
    from ret[OF this] nw show ?thesis by blast
  qed
  have total: "\<exists>v. r = Inr v"
    if ok: "\<forall>sub' \<in> set (sub_kinds kind). resolvable env kind ticker start end_date use_cache w sub'"
    using fetch_returns[OF ok] run by auto
  have single: "\<exists>x. ask env kind ticker start end_date sub (remote_log w) = Inr x \<and> \<not> is_empty x \<and>
               (case faults w ?p (encode env kind x) of
                  None \<Rightarrow> r = Inr (Single x) \<and> files w' ?p = Some (encode env kind x)
                | Some (OpenFails err) \<Rightarrow> r = Inl err \<and> files w' ?p = files w ?p
                | Some (WriteFails err left) \<Rightarrow> r = Inl err \<and> files w' ?p = Some left)"
    if ty: "types_of kind = []"
  proof -
    from ty have k: "kind = PriceSeries \<or> kind = CompanyInfo" by (cases kind) (simp_all add: types_defs)
    with sub have s0: "sub = None" by (simp add: sub_kinds_single)
    from answer obtain x where x: "ask env kind ticker start end_date sub (remote_log w) = Inr x" "\<not> is_empty x"
      by blast
    from run x have "case faults w ?p (encode env kind x) of
                  None \<Rightarrow> r = Inr (Single x) \<and> files w' ?p = Some (encode env kind x)
                | Some (OpenFails err) \<Rightarrow> r = Inl err \<and> files w' ?p = files w ?p
                | Some (WriteFails err left) \<Rightarrow> r = Inl err \<and> files w' ?p = Some left"
      unfolding fetch_single[OF k] s0[symmetric] resolve_miss[OF miss]
      by (auto simp: returning_def remote_call_def split: option.splits fault.splits)
    with x show ?thesis by blast
  qed
  from ret fail total single show ?thesis by blast
qed

text \<open>
  The theorem on the stub, with a cache directory that cannot be opened for writing,
  one where every write breaks off after three characters, and one without faults.
\<close>

theorem cache_write_failure_propagates_witness:
  "fetch stub_env PriceSeries ''ACME'' ''2023-01-01'' None True readonly_world =
     (Inl OSError, readonly_world\<lparr>remote_log := [Download ''ACME'' ''2023-01-01'' None]\<rparr>)
   \<and> fetch stub_env PriceSeries ''ACME'' ''2023-01-01'' None True broken_disk_world =
     (Inl OSError,
      \<lparr>files = [''ACME.csv'' \<mapsto> ''pri''],
       faults = (\<lambda>p c. Some (WriteFails OSError (take 3 c))),
       remote_log = [Download ''ACME'' ''2023-01-01'' None]\<rparr>)
   \<and> fetch stub_env PriceSeries ''ACME'' ''2023-01-01'' None True fresh_world =
     (Inr (Single (Table acme_prices)), acme_cached)
   \<and> None \<in> set (sub_kinds PriceSeries)
   \<and> types_of PriceSeries = []
   \<and> \<not> (True \<and> fs_exists readonly_world (cache_file_of (''ACME'', PriceSeries, None)))
   \<and> \<not> (True \<and> fs_exists broken_disk_world (cache_file_of (''ACME'', PriceSeries, None)))
   \<and> \<not> (True \<and> fs_exists fresh_world (cache_file_of (''ACME'', PriceSeries, None)))
   \<and> (\<forall>lg. ask stub_env PriceSeries ''ACME'' ''2023-01-01'' None None lg = Inr (Table acme_prices))
   \<and> \<not> is_empty (Table acme_prices :: (string, string) payload)
   \<and> (\<forall>p c. faults readonly_world p c = Some (OpenFails OSError))
   \<and> (\<forall>p c. faults broken_disk_world p c = Some (WriteFails OSError (take 3 c)))
   \<and> (\<forall>p c. faults fresh_world p c = None)
   \<and> resolvable stub_env PriceSeries ''ACME'' ''2023-01-01'' None True fresh_world None
   \<and> files acme_cached (cache_file_of (''ACME'', PriceSeries, None)) =
       Some (encode stub_env PriceSeries (Table acme_prices))
   \<and> files (readonly_world\<lparr>remote_log := [Download ''ACME'' ''2023-01-01'' None]\<rparr>)
       (cache_file_of (''ACME'', PriceSeries, None)) =
       files readonly_world (cache_file_of (''ACME'', PriceSeries, None))
   \<and> files \<lparr>files = [''ACME.csv'' \<mapsto> ''pri''],
       faults = (\<lambda>p c. Some (WriteFails OSError (take 3 c))),
       remote_log = [Download ''ACME'' ''2023-01-01'' None]\<rparr>
       (cache_file_of (''ACME'', PriceSeries, None)) =
       Some (take 3 (encode stub_env PriceSeries (Table acme_prices)))"
proof -
  let ?p = "cache_file_of (''ACME'', PriceSeries, None)"
  have sub: "None \<in> set (sub_kinds PriceSeries)" by simp
  have ty: "types_of PriceSeries = []" by simp
  have miss1: "\<not> (True \<and> fs_exists readonly_world ?p)"
    and miss2: "\<not> (True \<and> fs_exists broken_disk_world ?p)"
    and miss3: "\<not> (True \<and> fs_exists fresh_world ?p)"
    by (simp_all add: fs_exists_def stub_defs)
  have a: "\<forall>lg. ask stub_env PriceSeries ''ACME'' ''2023-01-01'' None None lg = Inr (Table acme_prices)"
    by (simp add: model_defs stub_defs)
  have ne: "\<not> is_empty (Table acme_prices :: (string, string) payload)"
    by (simp add: model_defs stub_defs)
  from a ne have answer:
    "\<forall>lg. \<exists>x. ask stub_env PriceSeries ''ACME'' ''2023-01-01'' None None lg = Inr x \<and> \<not> is_empty x"
    by blast
  have f1: "\<forall>p c. faults readonly_world p c = Some (OpenFails OSError)"
    and f2: "\<forall>p c. faults broken_disk_world p c = Some (WriteFails OSError (take 3 c))"
    and f3: "\<forall>p c. faults fresh_world p c = None"
    by (simp_all add: stub_defs)
  have ok: "resolvable stub_env PriceSeries ''ACME'' ''2023-01-01'' None True fresh_world None"
    using miss3 a f3 by (simp add: resolvable_def)
  then have all: "\<forall>sub' \<in> set (sub_kinds PriceSeries).
      resolvable stub_env PriceSeries ''ACME'' ''2023-01-01'' None True fresh_world sub'"
    by simp
  let ?broken = "\<lparr>files = [''ACME.csv'' \<mapsto> ''pri''],
       faults = (\<lambda>p c. Some (WriteFails OSError (take 3 c))),
       remote_log = [Download ''ACME'' ''2023-01-01'' None]\<rparr>"
  note ro = cache_write_failure_propagates[OF readonly_run sub miss1 answer,
      THEN conjunct2, THEN conjunct2, THEN conjunct2, rule_format, OF ty]
  then obtain x1 where
    c1: "case faults readonly_world ?p (encode stub_env PriceSeries x1) of
           None \<Rightarrow>
             (Inl OSError :: py_error + (string, string) fetched) = Inr (Single x1) \<and>
             files (readonly_world\<lparr>remote_log := [Download ''ACME'' ''2023-01-01'' None]\<rparr>) ?p =
               Some (encode stub_env PriceSeries x1)
         | Some (OpenFails err) \<Rightarrow>
             (Inl OSError :: py_error + (string, string) fetched) = Inl err \<and>
             files (readonly_world\<lparr>remote_log := [Download ''ACME'' ''2023-01-01'' None]\<rparr>) ?p =
               files readonly_world ?p
         | Some (WriteFails err left) \<Rightarrow>
             (Inl OSError :: py_error + (string, string) fetched) = Inl err \<and>
             files (readonly_world\<lparr>remote_log := [Download ''ACME'' ''2023-01-01'' None]\<rparr>) ?p =
               Some left"
    by blast
  have untouched:
    "files (readonly_world\<lparr>remote_log := [Download ''ACME'' ''2023-01-01'' None]\<rparr>) ?p =
       files readonly_world ?p"
    using c1 unfolding f1[rule_format] by simp
  note bd = cache_write_failure_propagates[OF broken_disk_run sub miss2 answer,
      THEN conjunct2, THEN conjunct2, THEN conjunct2, rule_format, OF ty]
  then obtain x2 where
    x2: "ask stub_env PriceSeries ''ACME'' ''2023-01-01'' None None (remote_log broken_disk_world) = Inr x2"
    and c2: "case faults broken_disk_world ?p (encode stub_env PriceSeries x2) of
           None \<Rightarrow>
             (Inl OSError :: py_error + (string, string) fetched) = Inr (Single x2) \<and>
             files ?broken ?p = Some (encode stub_env PriceSeries x2)
         | Some (OpenFails err) \<Rightarrow>
             (Inl OSError :: py_error + (string, string) fetched) = Inl err \<and>
             files ?broken ?p = files broken_disk_world ?p
         | Some (WriteFails err left) \<Rightarrow>
             (Inl OSError :: py_error + (string, string) fetched) = Inl err \<and>
             files ?broken ?p = Some left"
    by blast
  from x2 a have "x2 = Table acme_prices" by simp
  with c2 have partial:
    "files ?broken ?p = Some (take 3 (encode stub_env PriceSeries (Table acme_prices)))"
    unfolding f2[rule_format] by simp
  from cache_write_failure_propagates[OF acme_first_run sub miss3 answer]
  obtain x where "component (Single (Table acme_prices)) None = Some x"
    and "files acme_cached ?p = Some (encode stub_env PriceSeries x)"
    by blast
  then have stored: "files acme_cached ?p = Some (encode stub_env PriceSeries (Table acme_prices))"
    by simp
  show ?thesis
    using readonly_run broken_disk_run acme_first_run sub ty miss1 miss2 miss3 a ne f1 f2 f3 ok
      stored untouched partial
    by blast
qed

text \<open>
  C8 as stated fails: the provider returns the two price rows of \<^verbatim>\<open>ACME\<close>, the write
  of \<^verbatim>\<open>ACME.csv\<close> raises, and \<^verbatim>\<open>get_stock_data\<close> raises \<^verbatim>\<open>OSError\<close> instead of
  returning the rows; a write that broke off leaves a truncated \<^verbatim>\<open>ACME.csv\<close> behind.
\<close>

theorem write_failure_loses_record:
  "yf_download stub_env (remote_log broken_disk_world) ''ACME'' ''2023-01-01'' None = Inr acme_prices
   \<and> \<not> df_empty acme_prices
   \<and> \<not> fs_exists broken_disk_world (stock_cache_file ''ACME'')
   \<and> fst (get_stock_data stub_env ''ACME'' ''2023-01-01'' None True broken_disk_world) = Inl OSError
   \<and> files (snd (get_stock_data stub_env ''ACME'' ''2023-01-01'' None True broken_disk_world))
       (stock_cache_file ''ACME'') = Some ''pri''
   \<and> fst (get_stock_data stub_env ''ACME'' ''2023-01-01'' None True readonly_world) = Inl OSError"
  by (simp add: model_defs stub_defs cache_file_defs Let_def)

section \<open>The risk-free rate is a column of the price series\<close>

text \<open>
  C9. With any arguments given or left out, \<^verbatim>\<open>get_treasury_yield\<close> is the \<^verbatim>\<open>Close\<close>
  column of \<^verbatim>\<open>get_stock_data\<close> called with the same arguments, where a ticker left out
  is \<^verbatim>\<open>^TNX\<close> and a start date left out is \<^verbatim>\<open>2019-01-01\<close>; it leaves the world that
  call left, so the requests sent are those of \<^verbatim>\<open>get_stock_data\<close> and no other.
\<close>

theorem treasury_yield_is_close_column:
  "get_treasury_yield_kw env ticker start end_date use_cache w =
     close_column env
       (get_stock_data_kw env (case ticker of None \<Rightarrow> ''^TNX'' | Some t \<Rightarrow> t)
          (Some (case start of None \<Rightarrow> ''2019-01-01'' | Some s \<Rightarrow> s)) end_date use_cache w)
   \<and> snd (get_treasury_yield_kw env ticker start end_date use_cache w) =
     snd (get_stock_data_kw env (case ticker of None \<Rightarrow> ''^TNX'' | Some t \<Rightarrow> t)
          (Some (case start of None \<Rightarrow> ''2019-01-01'' | Some s \<Rightarrow> s)) end_date use_cache w)"
  by (simp add: get_treasury_yield_kw_def get_stock_data_kw_def get_treasury_yield_def
      close_column_def split: prod.splits sum.splits)

text \<open>
  On the stub: the closing prices of \<^verbatim>\<open>ACME\<close>, and with nothing given a download of
  \<^verbatim>\<open>^TNX\<close> from 2019-01-01, for which the stub has no table and so no \<^verbatim>\<open>Close\<close> column.
\<close>

theorem treasury_yield_is_close_column_witness:
  "get_treasury_yield_kw stub_env (Some ''ACME'') (Some ''2023-01-01'') None None fresh_world =
     (Inr [''100.0'', ''101.5''], acme_cached)
   \<and> get_stock_data_kw stub_env ''ACME'' (Some ''2023-01-01'') None None fresh_world =
     (Inr acme_prices, acme_cached)
   \<and> get_treasury_yield_kw stub_env None None None None fresh_world =
     (Inl KeyError, fresh_world\<lparr>remote_log := [Download ''^TNX'' ''2019-01-01'' None]\<rparr>)"
proof -
  have a: "get_stock_data_kw stub_env ''ACME'' (Some ''2023-01-01'') None None fresh_world =
     (Inr acme_prices, acme_cached)"
    by (simp add: get_stock_data_kw_def model_defs stub_defs cache_file_defs acme_cached_def Let_def)
  have b: "get_stock_data_kw stub_env ''^TNX'' (Some ''2019-01-01'') None None fresh_world =
     (Inr DataFrame, fresh_world\<lparr>remote_log := [Download ''^TNX'' ''2019-01-01'' None]\<rparr>)"
    by (simp add: get_stock_data_kw_def model_defs stub_defs cache_file_defs Let_def)
  have c1: "close_column stub_env (Inr acme_prices, acme_cached) = (Inr [''100.0'', ''101.5''], acme_cached)"
    by (simp add: close_column_def stub_env_def acme_prices_def)
  have c2: "close_column stub_env
      (Inr DataFrame, fresh_world\<lparr>remote_log := [Download ''^TNX'' ''2019-01-01'' None]\<rparr>) =
      (Inl KeyError, fresh_world\<lparr>remote_log := [Download ''^TNX'' ''2019-01-01'' None]\<rparr>)"
    by (simp add: close_column_def stub_env_def DataFrame_def)
  have "get_treasury_yield_kw stub_env (Some ''ACME'') (Some ''2023-01-01'') None None fresh_world =
     close_column stub_env (get_stock_data_kw stub_env ''ACME'' (Some ''2023-01-01'') None None fresh_world)"
    using treasury_yield_is_close_column[of stub_env "Some ''ACME''" "Some ''2023-01-01''" None None fresh_world]
    by simp
  then have "get_treasury_yield_kw stub_env (Some ''ACME'') (Some ''2023-01-01'') None None fresh_world =
     (Inr [''100.0'', ''101.5''], acme_cached)"
    unfolding a c1 .
  moreover have "get_treasury_yield_kw stub_env None None None None fresh_world =
     close_column stub_env (get_stock_data_kw stub_env ''^TNX'' (Some ''2019-01-01'') None None fresh_world)"
    using treasury_yield_is_close_column[of stub_env None None None None fresh_world]
    by simp
  then have "get_treasury_yield_kw stub_env None None None None fresh_world =
     (Inl KeyError, fresh_world\<lparr>remote_log := [Download ''^TNX'' ''2019-01-01'' None]\<rparr>)"
    unfolding b c2 .
  ultimately show ?thesis using a by blast
qed

section \<open>Holders and recommendations are never null\<close>

text \<open>
  C10. \<^verbatim>\<open>get_holders_and_recommendations\<close> returns a dictionary whenever, for each
  of the three sub-kinds, the cached file can be read or the provider answers the
  attribute lookup, be it with \<^verbatim>\<open>None\<close>, and the file can be written. When nothing is
  cached and the provider answers \<^verbatim>\<open>None\<close> throughout, the call returns the three
  sub-kinds bound to \<^verbatim>\<open>pd.DataFrame()\<close>, having asked for the three attributes and
  written nothing. And whenever the call returns, the dictionary has the three
  sub-kinds as its keys and a table for each; for a sub-kind that went to the
  provider, the provider was asked for its attribute during the call; when the answer
  was \<^verbatim>\<open>None\<close> or an empty table the value is \<^verbatim>\<open>pd.DataFrame()\<close>, which is empty, and
  the cache file is as before; otherwise the value is the answer.
\<close>

theorem holders_never_null:
  assumes item: "(name, attr) \<in> set holders_types"
  shows
    "((\<forall>(n, a) \<in> set holders_types.
         if use_cache \<and> fs_exists w (holders_cache_file ticker n)
         then \<exists>text df. files w (holders_cache_file ticker n) = Some text \<and>
                read_csv env None False text = Inr df
         else (\<forall>lg. \<exists>ans. yf_attr env lg ticker a = Inr ans) \<and>
              (\<forall>text. faults w (holders_cache_file ticker n) text = None))
       \<longrightarrow> (\<exists>data w'. get_holders_and_recommendations env ticker use_cache w = (Inr data, w')))
   \<and> ((\<forall>n. \<not> (use_cache \<and> fs_exists w (holders_cache_file ticker n))) \<and>
       (\<forall>lg a. yf_attr env lg ticker a = Inr None)
       \<longrightarrow> get_holders_and_recommendations env ticker use_cache w =
             (Inr (map (\<lambda>(n, a). (n, DataFrame)) holders_types),
              w\<lparr>remote_log := remote_log w @ map (\<lambda>(n, a). Attribute ticker a) holders_types\<rparr>))
   \<and> (\<forall>data w'. get_holders_and_recommendations env ticker use_cache w = (Inr data, w') \<longrightarrow>
        map fst data = map fst holders_types \<and>
        (\<exists>df. map_of data name = Some df \<and>
           (\<not> (use_cache \<and> fs_exists w (holders_cache_file ticker name)) \<longrightarrow>
              (\<exists>lg ans. yf_attr env (remote_log w @ lg) ticker attr = Inr ans \<and>
                 (case ans of
                    None \<Rightarrow> df = DataFrame \<and> df_empty df \<and>
                      files w' (holders_cache_file ticker name) = files w (holders_cache_file ticker name)
                  | Some d \<Rightarrow>
                      if df_empty d
                      then df = DataFrame \<and> df_empty df \<and>
                        files w' (holders_cache_file ticker name) = files w (holders_cache_file ticker name)
                      else df = d)))))"
proof (intro conjI impI allI)
  let ?k = HoldersAndRecommendations
  assume ok: "\<forall>(n, a) \<in> set holders_types.
         if use_cache \<and> fs_exists w (holders_cache_file ticker n)
         then \<exists>text df. files w (holders_cache_file ticker n) = Some text \<and>
                read_csv env None False text = Inr df
         else (\<forall>lg. \<exists>ans. yf_attr env lg ticker a = Inr ans) \<and>
              (\<forall>text. faults w (holders_cache_file ticker n) text = None)"
  have k: "?k = AnnualStatements \<or> ?k = QuarterlyStatements \<or> ?k = HoldersAndRecommendations"
    by simp
  have "resolvable env ?k ticker [] None use_cache w sub" if sub: "sub \<in> set (sub_kinds ?k)" for sub
  proof -
    from sub obtain n a where na: "(n, a) \<in> set holders_types" "sub = Some n"
      using sub_kinds_bundle[OF k] by auto
    have at: "attr_of ?k (Some n) = a" using attr_of_types(3)[OF na(1)] .
    from ok na(1) have c: "if use_cache \<and> fs_exists w (holders_cache_file ticker n)
         then \<exists>text df. files w (holders_cache_file ticker n) = Some text \<and>
                read_csv env None False text = Inr df
         else (\<forall>lg. \<exists>ans. yf_attr env lg ticker a = Inr ans) \<and>
              (\<forall>text. faults w (holders_cache_file ticker n) text = None)"
      by blast
    show ?thesis
    proof (cases "use_cache \<and> fs_exists w (holders_cache_file ticker n)")
      case True
      with c show ?thesis unfolding na(2) by (auto simp: resolvable_def as_table_def)
    next
      case False
      with c have a: "\<forall>lg. \<exists>ans. yf_attr env lg ticker a = Inr ans"
        and f: "\<forall>text. faults w (holders_cache_file ticker n) text = None" by auto
      have "\<exists>x. ask env ?k ticker [] None (Some n) lg = Inr x" for lg
      proof -
        from a obtain ans where "yf_attr env lg ticker a = Inr ans" by blast
        then show ?thesis by (simp add: at as_table_def ask_holder_def)
      qed
      with False f show ?thesis unfolding na(2) by (auto simp: resolvable_def)
    qed
  qed
  then have "\<forall>sub \<in> set (sub_kinds ?k). resolvable env ?k ticker [] None use_cache w sub" by blast
  from fetch_returns[OF this] obtain v w' where
    "fetch env ?k ticker [] None use_cache w = (Inr v, w')" by blast
  then show "\<exists>data w'. get_holders_and_recommendations env ticker use_cache w = (Inr data, w')"
    unfolding fetch_holders by (auto simp: returning_def split: sum.splits prod.splits)
next
  assume "(\<forall>n. \<not> (use_cache \<and> fs_exists w (holders_cache_file ticker n))) \<and>
       (\<forall>lg a. yf_attr env lg ticker a = Inr None)"
  then have miss: "\<And>n w1. files w1 = files w \<Longrightarrow> \<not> (use_cache \<and> fs_exists w1 (holders_cache_file ticker n))"
    and none: "\<And>lg a. yf_attr env lg ticker a = Inr None"
    by (auto simp: fs_exists_def)
  have body: "holders_body env ticker use_cache n a d w1 =
      (Inr (AList.update n DataFrame d), w1\<lparr>remote_log := remote_log w1 @ [Attribute ticker a]\<rparr>)"
    if "files w1 = files w" for n a d w1
    using miss[OF that, of n] by (auto simp: holders_body_def none remote_call_def Let_def)
  show "get_holders_and_recommendations env ticker use_cache w =
             (Inr (map (\<lambda>(n, a). (n, DataFrame)) holders_types),
              w\<lparr>remote_log := remote_log w @ map (\<lambda>(n, a). Attribute ticker a) holders_types\<rparr>)"
    by (simp add: get_holders_and_recommendations_def holders_types_def body)
next
  fix data w'
  assume run: "get_holders_and_recommendations env ticker use_cache w = (Inr data, w')"
  let ?k = HoldersAndRecommendations
  have k: "?k = AnnualStatements \<or> ?k = QuarterlyStatements \<or> ?k = HoldersAndRecommendations"
    by simp
  have frun: "fetch env ?k ticker [] None use_cache w = (Inr (tables data), w')"
    using run by (simp add: fetch_holders returning_def)
  from fetch_bundle_keys[OF k frun] show "map fst data = map fst holders_types"
    by (auto simp: tables_def comp_def case_prod_unfold dest!: arg_cong[where f = "map fst"])
next
  fix data w'
  assume run: "get_holders_and_recommendations env ticker use_cache w = (Inr data, w')"
  let ?k = HoldersAndRecommendations
  have k: "?k = AnnualStatements \<or> ?k = QuarterlyStatements \<or> ?k = HoldersAndRecommendations"
    by simp
  have frun: "fetch env ?k ticker [] None use_cache w = (Inr (tables data), w')"
    using run by (simp add: fetch_holders returning_def)
  have item': "(name, attr) \<in> set (types_of ?k)" using item by simp
  have sub: "Some name \<in> set (sub_kinds ?k)" using item' sub_kinds_bundle[OF k] by blast
  have p: "cache_file_of (ticker, ?k, Some name) = holders_cache_file ticker name" by simp
  have at: "attr_of ?k (Some name) = attr" using attr_of_types(3)[OF item] .
  from fetch_key_cases[OF frun sub] obtain x where
    x: "component (tables data) (Some name) = Some x"
       "if use_cache \<and> fs_exists w (holders_cache_file ticker name) then
          (\<exists>text. files w (holders_cache_file ticker name) = Some text \<and> decode env ?k text = Inr x \<and>
                files w' (holders_cache_file ticker name) = Some text)
        else
          (\<exists>lg lg'. remote_log w' = remote_log w @ lg @ key_request ?k ticker [] None (Some name) # lg' \<and>
             ask env ?k ticker [] None (Some name) (remote_log w @ lg) = Inr x \<and>
             (if is_empty x
              then files w' (holders_cache_file ticker name) = files w (holders_cache_file ticker name)
              else faults w (holders_cache_file ticker name) (encode env ?k x) = None \<and>
                   files w' (holders_cache_file ticker name) = Some (encode env ?k x)))"
    unfolding p by blast
  from x(1) obtain df where df: "map_of data name = Some df" "x = Table df"
    by (auto simp: tables_def map_of_tables)
  have "\<exists>lg ans. yf_attr env (remote_log w @ lg) ticker attr = Inr ans \<and>
             (case ans of
                None \<Rightarrow> df = DataFrame \<and> df_empty df \<and>
                  files w' (holders_cache_file ticker name) = files w (holders_cache_file ticker name)
              | Some d \<Rightarrow>
                  if df_empty d
                  then df = DataFrame \<and> df_empty df \<and>
                    files w' (holders_cache_file ticker name) = files w (holders_cache_file ticker name)
                  else df = d)"
    if miss: "\<not> (use_cache \<and> fs_exists w (holders_cache_file ticker name))"
  proof -
    from x(2) miss obtain lg where
      a: "ask env ?k ticker [] None (Some name) (remote_log w @ lg) = Inr x"
      and f0: "if is_empty x
          then files w' (holders_cache_file ticker name) = files w (holders_cache_file ticker name)
          else faults w (holders_cache_file ticker name) (encode env ?k x) = None \<and>
               files w' (holders_cache_file ticker name) = Some (encode env ?k x)"
      by auto
    from f0 have f: "is_empty x \<Longrightarrow>
          files w' (holders_cache_file ticker name) = files w (holders_cache_file ticker name)"
      by simp
    from a obtain ans where ans: "yf_attr env (remote_log w @ lg) ticker attr = Inr ans"
      and r: "df = ret_holder ans"
      using df(2) at by (auto simp: as_table_def ask_holder_def split: sum.splits)
    have "case ans of
                None \<Rightarrow> df = DataFrame \<and> df_empty df \<and>
                  files w' (holders_cache_file ticker name) = files w (holders_cache_file ticker name)
              | Some d \<Rightarrow>
                  if df_empty d
                  then df = DataFrame \<and> df_empty df \<and>
                    files w' (holders_cache_file ticker name) = files w (holders_cache_file ticker name)
                  else df = d"
      using r f df(2) by (auto simp: ret_holder_def df_empty_DataFrame split: option.splits)
    with ans show ?thesis by blast
  qed
  with df(1) show "\<exists>df. map_of data name = Some df \<and>
           (\<not> (use_cache \<and> fs_exists w (holders_cache_file ticker name)) \<longrightarrow>
              (\<exists>lg ans. yf_attr env (remote_log w @ lg) ticker attr = Inr ans \<and>
                 (case ans of
                    None \<Rightarrow> df = DataFrame \<and> df_empty df \<and>
                      files w' (holders_cache_file ticker name) = files w (holders_cache_file ticker name)
                  | Some d \<Rightarrow>
                      if df_empty d
                      then df = DataFrame \<and> df_empty df \<and>
                        files w' (holders_cache_file ticker name) = files w (holders_cache_file ticker name)
                      else df = d)))"
    by blast
qed

text \<open>The theorem on the stub, whose provider answers \<^verbatim>\<open>None\<close> for \<^verbatim>\<open>NONE\<close>.\<close>

theorem holders_never_null_witness:
  "(''major_holders'', ''major_holders'') \<in> set holders_types
   \<and> (\<forall>n. \<not> (True \<and> fs_exists fresh_world (holders_cache_file ''NONE'' n)))
   \<and> (\<forall>lg a. yf_attr stub_env lg ''NONE'' a = Inr None)
   \<and> (\<forall>p c. faults fresh_world p c = None)
   \<and> get_holders_and_recommendations stub_env ''NONE'' True fresh_world =
     (Inr [(''institutional_holders'', DataFrame), (''major_holders'', DataFrame),
           (''recommendations'', DataFrame)], none_asked)
   \<and> map_of [(''institutional_holders'', DataFrame), (''major_holders'', DataFrame :: string frame),
           (''recommendations'', DataFrame)] ''major_holders'' = Some DataFrame
   \<and> df_empty (DataFrame :: string frame)
   \<and> files none_asked (holders_cache_file ''NONE'' ''major_holders'') = None"
proof -
  have item: "(''major_holders'', ''major_holders'') \<in> set holders_types"
    by (simp add: types_defs)
  have miss: "\<forall>n. \<not> (True \<and> fs_exists fresh_world (holders_cache_file ''NONE'' n))"
    by (simp add: fs_exists_def fresh_world_def)
  have ans: "\<forall>lg a. yf_attr stub_env lg ''NONE'' a = Inr None"
    by (simp add: stub_env_def)
  have nofault: "\<forall>p c. faults fresh_world p c = None"
    by (simp add: fresh_world_def)
  note main = holders_never_null[OF item, of True fresh_world "''NONE''" stub_env]
  have hyp: "\<forall>(n, a) \<in> set holders_types.
         if True \<and> fs_exists fresh_world (holders_cache_file ''NONE'' n)
         then \<exists>c df. files fresh_world (holders_cache_file ''NONE'' n) = Some c \<and>
                read_csv stub_env None False c = Inr df
         else (\<forall>lg. \<exists>ans. yf_attr stub_env lg ''NONE'' a = Inr ans) \<and>
              (\<forall>c. faults fresh_world (holders_cache_file ''NONE'' n) c = None)"
    using miss ans nofault by auto
  from main hyp obtain data w' where
    ret: "get_holders_and_recommendations stub_env ''NONE'' True fresh_world = (Inr data, w')"
    by blast
  from main miss ans
  have run: "get_holders_and_recommendations stub_env ''NONE'' True fresh_world =
      (Inr (map (\<lambda>(n, a). (n, DataFrame)) holders_types),
       fresh_world\<lparr>remote_log := remote_log fresh_world @
         map (\<lambda>(n, a). Attribute ''NONE'' a) holders_types\<rparr>)"
    by blast
  then have run': "get_holders_and_recommendations stub_env ''NONE'' True fresh_world =
     (Inr [(''institutional_holders'', DataFrame), (''major_holders'', DataFrame),
           (''recommendations'', DataFrame)], none_asked)"
    by (simp add: types_defs fresh_world_def none_asked_def)
  note third = main[THEN conjunct2, THEN conjunct2, rule_format, OF run']
  with miss obtain df lg ans where
    a: "yf_attr stub_env (remote_log fresh_world @ lg) ''NONE'' ''major_holders'' = Inr ans"
    and c: "case ans of
         None \<Rightarrow> df = DataFrame \<and> df_empty df \<and>
           files none_asked (holders_cache_file ''NONE'' ''major_holders'') =
           files fresh_world (holders_cache_file ''NONE'' ''major_holders'')
       | Some d \<Rightarrow>
           if df_empty d
           then df = DataFrame \<and> df_empty df \<and>
             files none_asked (holders_cache_file ''NONE'' ''major_holders'') =
             files fresh_world (holders_cache_file ''NONE'' ''major_holders'')
           else df = d"
    by blast
  from a ans have "ans = None" by simp
  with c have kept: "files none_asked (holders_cache_file ''NONE'' ''major_holders'') =
        files fresh_world (holders_cache_file ''NONE'' ''major_holders'')"
    by simp
  then have nofile: "files none_asked (holders_cache_file ''NONE'' ''major_holders'') = None"
    by (simp add: fresh_world_def)
  have m: "map_of [(''institutional_holders'', DataFrame), (''major_holders'', DataFrame :: string frame),
           (''recommendations'', DataFrame)] ''major_holders'' = Some DataFrame"
    by simp
  show ?thesis
    using item miss ans nofault run' m df_empty_DataFrame[where 'a = string] nofile by blast
qed

end
